theory Spec2Isabelle
  imports Main "HOL-Library.Word" "HOL-Library.Multiset"
begin

section \<open>JavaScript strings and numbers used by the server\<close>

text \<open>
  The server (\<^verbatim>\<open>src/be/index.ts\<close>, and a second server with media types in
  \<^verbatim>\<open>src/unnamed/part_000\<close>) is a set of HTTP handlers over one directory. Strings are
  \<^typ>\<open>string\<close>; the characters that matter to the handlers (digits, \<^verbatim>\<open>-\<close>, \<^verbatim>\<open>.\<close>,
  \<^verbatim>\<open>/\<close>, \<^verbatim>\<open>\\<close>, ASCII letters) are all ASCII.
\<close>

subsection \<open>Decimal digits\<close>

definition is_digit :: "char \<Rightarrow> bool" where
  \<comment> \<open>the regular expression class \<^verbatim>\<open>\d\<close>, and a radix-10 digit of \<^verbatim>\<open>parseInt\<close>\<close>
  "is_digit c = (48 \<le> (of_char c :: nat) \<and> (of_char c :: nat) \<le> 57)"

definition digit_val :: "char \<Rightarrow> nat" where
  "digit_val c = of_char c - 48"

definition digit_char :: "nat \<Rightarrow> char" where
  "digit_char d = char_of (48 + d)"

fun show_nat :: "nat \<Rightarrow> string" where
  \<comment> \<open>\<^verbatim>\<open>String(n)\<close> for a non-negative integer below \<^verbatim>\<open>1e21\<close>: its decimal digits\<close>
  "show_nat n = (if n < 10 then [digit_char n] else show_nat (n div 10) @ [digit_char (n mod 10)])"

declare show_nat.simps [simp del]

definition digits_val :: "string \<Rightarrow> nat" where
  "digits_val ds = foldl (\<lambda>a c. 10 * a + digit_val c) 0 ds"

subsection \<open>String methods\<close>

definition starts_with :: "string \<Rightarrow> string \<Rightarrow> bool" where
  \<comment> \<open>\<^verbatim>\<open>s.startsWith(p)\<close>\<close>
  "starts_with s p = (take (length p) s = p)"

fun includes_str :: "string \<Rightarrow> string \<Rightarrow> bool" where
  \<comment> \<open>\<^verbatim>\<open>s.includes(p)\<close>: \<open>p\<close> occurs in \<open>s\<close> as a contiguous substring\<close>
  "includes_str [] p = (p = [])"
| "includes_str (c # cs) p = (starts_with (c # cs) p \<or> includes_str cs p)"

fun replace_first :: "string \<Rightarrow> string \<Rightarrow> string \<Rightarrow> string" where
  \<comment> \<open>\<^verbatim>\<open>s.replace(/p/, r)\<close> for a pattern \<open>p\<close> of literal characters (no \<^verbatim>\<open>g\<close> flag):
      the leftmost occurrence is replaced, the rest is kept\<close>
  "replace_first p r [] = (if p = [] then r else [])"
| "replace_first p r (c # cs) =
     (if starts_with (c # cs) p then r @ drop (length p) (c # cs)
      else c # replace_first p r cs)"

fun split :: "char \<Rightarrow> string \<Rightarrow> string list" where
  \<comment> \<open>\<^verbatim>\<open>s.split(d)\<close> for a one-character separator; the result is never empty\<close>
  "split d [] = [[]]"
| "split d (c # cs) =
     (if c = d then [] # split d cs
      else (c # hd (split d cs)) # tl (split d cs))"

definition toLowerCase :: "string \<Rightarrow> string" where
  \<comment> \<open>\<^verbatim>\<open>s.toLowerCase()\<close> on ASCII letters; other characters are kept (a character
      outside ASCII never maps to a character of an allow-listed extension)\<close>
  "toLowerCase s =
     map (\<lambda>c. if 65 \<le> (of_char c :: nat) \<and> (of_char c :: nat) \<le> 90
               then char_of ((of_char c :: nat) + 32) else c) s"

section \<open>Identity encoding\<close>

definition encode :: "string \<Rightarrow> nat \<Rightarrow> string" where
  \<comment> \<open>\<^verbatim>\<open>`${timestamp}-${file.name}`\<close> with \<^verbatim>\<open>timestamp = Date.now()\<close>, a count of
      milliseconds since 1970 that stays below \<open>8.64e15\<close>, so its string is its decimal
      digits\<close>
  "encode displayName timestamp = show_nat timestamp @ ''-'' @ displayName"

definition decode :: "string \<Rightarrow> string" where
  \<comment> \<open>\<^verbatim>\<open>file.replace(/^\d+-/, "")\<close>: \<^verbatim>\<open>\d+\<close> is greedy, and giving digits back cannot
      help it to reach the hyphen, so the pattern matches exactly when the leading run of
      digits is not empty and a hyphen follows it\<close>
  "decode file =
     (case dropWhile is_digit file of
        [] \<Rightarrow> file
      | c # rest \<Rightarrow> if takeWhile is_digit file \<noteq> [] \<and> c = CHR ''-'' then rest else file)"

section \<open>Numbers\<close>

text \<open>
  A JavaScript number that the stream handler computes is either \<^verbatim>\<open>NaN\<close> or an integer.
  The model keeps integers exact; the program's doubles agree with it for magnitudes up to
  \<open>2 ^ 53\<close>, which covers every file size and every range a client can use on one.
\<close>

datatype jsnum = NaN | Num int

fun js_add :: "jsnum \<Rightarrow> jsnum \<Rightarrow> jsnum" where
  "js_add (Num a) (Num b) = Num (a + b)"
| "js_add _ _ = NaN"

fun js_sub :: "jsnum \<Rightarrow> jsnum \<Rightarrow> jsnum" where
  "js_sub (Num a) (Num b) = Num (a - b)"
| "js_sub _ _ = NaN"

fun toString :: "jsnum \<Rightarrow> string" where
  \<comment> \<open>\<^verbatim>\<open>n.toString()\<close> and \<^verbatim>\<open>`${n}`\<close>\<close>
  "toString NaN = ''NaN''"
| "toString (Num i) = (if i < 0 then ''-'' @ show_nat (nat (- i)) else show_nat (nat i))"

definition is_space :: "char \<Rightarrow> bool" where
  \<comment> \<open>the white space and line terminators that \<^verbatim>\<open>parseInt\<close> skips, among the
      characters below 256: TAB, LF, VT, FF, CR, SP, NBSP\<close>
  "is_space c = ((of_char c :: nat) \<in> {9, 10, 11, 12, 13, 32, 160})"

definition parseInt :: "string \<Rightarrow> jsnum" where
  \<comment> \<open>\<^verbatim>\<open>parseInt(s, 10)\<close>: leading white space is skipped, one sign is read, then the
      longest run of decimal digits; no digit gives \<^verbatim>\<open>NaN\<close>\<close>
  "parseInt s =
     (let t = dropWhile is_space s;
          neg = (t \<noteq> [] \<and> hd t = CHR ''-'');
          u = (if t \<noteq> [] \<and> (hd t = CHR ''+'' \<or> hd t = CHR ''-'') then tl t else t);
          z = takeWhile is_digit u
      in if z = [] then NaN
         else if neg then Num (- int (digits_val z)) else Num (int (digits_val z)))"

section \<open>Paths\<close>

definition last_segment :: "string \<Rightarrow> string" where
  \<comment> \<open>the last portion of a POSIX path, trailing separators ignored\<close>
  "last_segment p =
     rev (takeWhile (\<lambda>c. c \<noteq> CHR ''/'') (dropWhile (\<lambda>c. c = CHR ''/'') (rev p)))"

definition extname :: "string \<Rightarrow> string" where
  \<comment> \<open>\<^verbatim>\<open>path.extname(p)\<close> of the runtime (POSIX): from the last \<^verbatim>\<open>.\<close> of the last
      portion of the path to its end; empty when that portion has no \<^verbatim>\<open>.\<close>, when its only
      \<^verbatim>\<open>.\<close> is its first character, or when the portion is \<^verbatim>\<open>..\<close>\<close>
  "extname p =
     (let seg = last_segment p;
          ext = CHR ''.'' # rev (takeWhile (\<lambda>c. c \<noteq> CHR ''.'') (rev seg));
          stem = rev (drop 1 (dropWhile (\<lambda>c. c \<noteq> CHR ''.'') (rev seg)))
      in if CHR ''.'' \<in> set seg \<and> stem \<noteq> [] \<and> seg \<noteq> ''..'' then ext else [])"

section \<open>The storage directory\<close>

text \<open>
  The directory \<^verbatim>\<open>uploads\<close> is a list of named regular files in the order in which
  \<^verbatim>\<open>readdir\<close> returns them. A file has its bytes and its creation time in milliseconds.
  File names are compared exactly. The router binds \<^verbatim>\<open>:filename\<close> to one non-empty
  segment of the normalised request path, so a name that passes the handlers' check is
  looked up as an entry of the directory. Reading, listing and removing an entry that is
  there do not fail in the model; the write of an upload can (see the upload handler).
\<close>

type_synonym byte = "8 word"

record stored_file =
  data :: "byte list"
  birthtime :: int

type_synonym directory = "(string \<times> stored_file) list"

definition readdir :: "directory \<Rightarrow> string list" where
  "readdir fs = map fst fs"

definition existsSync :: "directory \<Rightarrow> string \<Rightarrow> bool" where
  "existsSync fs file = (map_of fs file \<noteq> None)"

definition stat :: "directory \<Rightarrow> string \<Rightarrow> stored_file option" where
  \<comment> \<open>\<open>None\<close>: the call throws (no such file)\<close>
  "stat fs file = map_of fs file"

definition unlink :: "directory \<Rightarrow> string \<Rightarrow> directory option" where
  \<comment> \<open>\<open>None\<close>: the call throws (no such file)\<close>
  "unlink fs file =
     (if existsSync fs file then Some (filter (\<lambda>e. fst e \<noteq> file) fs) else None)"

definition write_file :: "int \<Rightarrow> directory \<Rightarrow> string \<Rightarrow> byte list \<Rightarrow> directory option" where
  \<comment> \<open>one outcome of \<^verbatim>\<open>Bun.write(path, bytes)\<close>, used to evaluate the upload handler on
      the sample file: a name that is one path component of at most 255 bytes is written (an
      existing file keeps its creation time and gets the new bytes, a new file is created
      at the clock time \<open>clock\<close> and put last); for any other name this sample gives
      \<open>None\<close>, and no evaluation uses one\<close>
  "write_file clock fs file bs =
     (if file = [] \<or> CHR ''/'' \<in> set file \<or> CHR 0x00 \<in> set file \<or> 255 < length file
      then None
      else if existsSync fs file
      then Some (map (\<lambda>e. if fst e = file then (fst e, (snd e)\<lparr>data := bs\<rparr>) else e) fs)
      else Some (fs @ [(file, \<lparr>data = bs, birthtime = clock\<rparr>)]))"

definition to_integer :: "jsnum \<Rightarrow> int" where
  \<comment> \<open>the conversion of a \<^verbatim>\<open>Blob.slice\<close> argument: \<^verbatim>\<open>NaN\<close> becomes 0 (the clamp to 64
      bits changes nothing for a file shorter than \<open>2 ^ 53\<close> bytes)\<close>
  "to_integer x = (case x of NaN \<Rightarrow> 0 | Num i \<Rightarrow> i)"

definition blob_slice :: "byte list \<Rightarrow> jsnum \<Rightarrow> jsnum \<Rightarrow> byte list" where
  \<comment> \<open>\<^verbatim>\<open>file.slice(start, end)\<close> of the runtime, as the File API defines it: a negative
      position counts from the end, both positions are clamped to the file, and the span is
      never negative\<close>
  "blob_slice bs start end =
     (let size = int (length bs);
          s = to_integer start;
          e = to_integer end;
          relativeStart = (if s < 0 then max (size + s) 0 else min s size);
          relativeEnd = (if e < 0 then max (size + e) 0 else min e size);
          span = max (relativeEnd - relativeStart) 0
      in take (nat span) (drop (nat relativeStart) bs))"

section \<open>Requests and responses\<close>

record VideoFile =
  vf_filename :: string
  originalName :: string
  size_bytes :: nat
  uploadDate :: int
  url :: string

record UploadResponse =
  message :: string
  up_filename :: string
  up_originalName :: string
  up_size :: nat
  up_url :: string

datatype body =
    ErrorJson string
  | MessageJson string
  | VideosJson "VideoFile list"
  | UploadJson UploadResponse
  | ByteStream "byte list"

text \<open>
  \<open>headers\<close> holds the headers that the handler sets itself. \<^verbatim>\<open>c.json(x)\<close> and a
  \<^verbatim>\<open>Response\<close> built without a status answer 200.
\<close>

record response =
  status :: nat
  headers :: "(string \<times> string) list"
  body :: body

definition json_error :: "string \<Rightarrow> nat \<Rightarrow> response" where
  \<comment> \<open>\<^verbatim>\<open>c.json({ error: msg }, code)\<close>\<close>
  "json_error msg code = \<lparr>status = code, headers = [], body = ErrorJson msg\<rparr>"

record upload_file =
  name :: string
  contents :: "byte list"

datatype form_entry = FileEntry upload_file | StringEntry string

datatype upload_body =
    NotFormData \<comment> \<open>\<^verbatim>\<open>c.req.formData()\<close> throws\<close>
  | FormData "form_entry option" \<comment> \<open>what \<^verbatim>\<open>formData.get("video")\<close> returns; \<open>None\<close> is \<^verbatim>\<open>null\<close>\<close>

section \<open>Configuration\<close>

definition MAX_FILE_SIZE :: nat where
  "MAX_FILE_SIZE = 500 * 1024 * 1024"

definition ALLOWED_EXTENSIONS :: "string list" where
  "ALLOWED_EXTENSIONS = [''.mp4'']"

section \<open>The handlers of \<^verbatim>\<open>src/be/index.ts\<close>\<close>

subsection \<open>\<^verbatim>\<open>GET /api/videos\<close>\<close>

definition video_entry :: "string \<Rightarrow> stored_file \<Rightarrow> VideoFile" where
  "video_entry file stats =
     \<lparr>vf_filename = file, originalName = decode file, size_bytes = length (data stats),
      uploadDate = birthtime stats, url = ''/videos/uploads/'' @ file\<rparr>"

fun collect_videos :: "directory \<Rightarrow> string list \<Rightarrow> VideoFile list option" where
  \<comment> \<open>the \<^verbatim>\<open>for\<close> loop over the directory entries; \<open>None\<close> when \<^verbatim>\<open>stat\<close> throws\<close>
  "collect_videos fs [] = Some []"
| "collect_videos fs (file # files) =
     (if toLowerCase (extname file) \<in> set ALLOWED_EXTENSIONS
      then (case stat fs file of
              None \<Rightarrow> None
            | Some stats \<Rightarrow> map_option ((#) (video_entry file stats)) (collect_videos fs files))
      else collect_videos fs files)"

definition sort_newest_first :: "VideoFile list \<Rightarrow> VideoFile list" where
  \<comment> \<open>\<^verbatim>\<open>sort((a, b) => b.uploadDate.getTime() - a.uploadDate.getTime())\<close>: the stable
      sort by decreasing upload date\<close>
  "sort_newest_first vs = sort_key (\<lambda>v. - uploadDate v) vs"

definition list_videos :: "directory \<Rightarrow> response" where
  "list_videos fs =
     (case collect_videos fs (readdir fs) of
        None \<Rightarrow> json_error ''Failed to read videos'' 500
      | Some videoFiles \<Rightarrow>
          \<lparr>status = 200, headers = [], body = VideosJson (sort_newest_first videoFiles)\<rparr>)"

definition listed :: "directory \<Rightarrow> VideoFile list" where
  \<comment> \<open>the array in the body of the answer of \<open>list_videos\<close>\<close>
  "listed fs = (case body (list_videos fs) of VideosJson videoFiles \<Rightarrow> videoFiles | _ \<Rightarrow> [])"

subsection \<open>\<^verbatim>\<open>POST /api/upload\<close>\<close>

text \<open>
  \<^verbatim>\<open>Bun.write\<close> belongs to the runtime, and whether it creates the file, replaces one or
  throws is decided by the operating system for the path it is given (a name that ends in a
  slash or is too long makes it throw). The handler takes it as the parameter \<open>bunWrite\<close>,
  from the directory, the stored name and the bytes to the new directory, with \<open>None\<close> when
  it throws; the handler's \<^verbatim>\<open>catch\<close> then answers 500.
\<close>

definition upload ::
  "(directory \<Rightarrow> string \<Rightarrow> byte list \<Rightarrow> directory option) \<Rightarrow>
     directory \<Rightarrow> nat \<Rightarrow> upload_body \<Rightarrow> directory \<times> response" where
  \<comment> \<open>\<open>now\<close> is \<^verbatim>\<open>Date.now()\<close>. A non-empty string in the field has neither size nor
      name: the size test is false and \<^verbatim>\<open>path.extname(undefined)\<close> throws\<close>
  "upload bunWrite fs now req =
     (case req of
        NotFormData \<Rightarrow> (fs, json_error ''Upload failed'' 500)
      | FormData None \<Rightarrow> (fs, json_error ''No file provided'' 400)
      | FormData (Some (StringEntry s)) \<Rightarrow>
          if s = [] then (fs, json_error ''No file provided'' 400)
          else (fs, json_error ''Upload failed'' 500)
      | FormData (Some (FileEntry file)) \<Rightarrow>
          if length (contents file) > MAX_FILE_SIZE
          then (fs, json_error ''File too large. Maximum size is 500MB'' 400)
          else if toLowerCase (extname (name file)) \<notin> set ALLOWED_EXTENSIONS
          then (fs, json_error ''Only MP4 files are allowed'' 400)
          else
            (case bunWrite fs (encode (name file) now) (contents file) of
               None \<Rightarrow> (fs, json_error ''Upload failed'' 500)
             | Some fs' \<Rightarrow>
                 (fs',
                  \<lparr>status = 200, headers = [],
                   body = UploadJson
                     \<lparr>message = ''File uploaded successfully'',
                      up_filename = encode (name file) now,
                      up_originalName = name file,
                      up_size = length (contents file),
                      up_url = ''/videos/uploads/'' @ encode (name file) now\<rparr>\<rparr>)))"

subsection \<open>The filename check of the delete and stream handlers\<close>

definition invalid_filename :: "string \<Rightarrow> bool" where
  "invalid_filename filename =
     (includes_str filename ''..'' \<or> includes_str filename ''/''
      \<or> includes_str filename [CHR 0x5C])"

definition has_parent_segment :: "string \<Rightarrow> bool" where
  \<comment> \<open>the words of the specification, for comparison with \<open>invalid_filename\<close>: the name,
      cut at every \<^verbatim>\<open>/\<close> and \<^verbatim>\<open>\\<close>, has a segment that is the parent directory
      \<^verbatim>\<open>..\<close>\<close>
  "has_parent_segment filename =
     (''..'' \<in> set (concat (map (split (CHR 0x5C)) (split CHR ''/'' filename))))"

subsection \<open>\<^verbatim>\<open>DELETE /api/videos/:filename\<close>\<close>

definition delete_video :: "directory \<Rightarrow> string \<Rightarrow> directory \<times> response" where
  "delete_video fs filename =
     (if invalid_filename filename then (fs, json_error ''Invalid filename'' 400)
      else if \<not> existsSync fs filename then (fs, json_error ''Video not found'' 404)
      else (case unlink fs filename of
              None \<Rightarrow> (fs, json_error ''Failed to delete video'' 500)
            | Some fs' \<Rightarrow>
                (fs', \<lparr>status = 200, headers = [],
                       body = MessageJson ''Video deleted successfully''\<rparr>)))"

subsection \<open>\<^verbatim>\<open>GET /api/stream/:filename\<close>\<close>

definition truthy :: "string option \<Rightarrow> bool" where
  \<comment> \<open>\<^verbatim>\<open>if (range)\<close>: an absent header and an empty one are both false\<close>
  "truthy h = (case h of None \<Rightarrow> False | Some s \<Rightarrow> s \<noteq> [])"

definition range_start :: "string \<Rightarrow> jsnum" where
  "range_start rangeHeader =
     parseInt (split CHR ''-'' (replace_first ''bytes='' [] rangeHeader) ! 0)"

definition range_end :: "string \<Rightarrow> jsnum \<Rightarrow> jsnum" where
  \<comment> \<open>\<^verbatim>\<open>parts[1] ? parseInt(parts[1], 10) : fileSize - 1\<close>; a missing or empty
      \<^verbatim>\<open>parts[1]\<close> is false\<close>
  "range_end rangeHeader fileSize =
     (let parts = split CHR ''-'' (replace_first ''bytes='' [] rangeHeader)
      in if 1 < length parts \<and> parts ! 1 \<noteq> [] then parseInt (parts ! 1)
         else js_sub fileSize (Num 1))"

definition partial_content :: "byte list \<Rightarrow> string \<Rightarrow> string \<Rightarrow> response" where
  \<comment> \<open>the branch taken for a range request; \<open>contentType\<close> is \<^verbatim>\<open>video/mp4\<close> in
      \<^verbatim>\<open>src/be/index.ts\<close> and the resolved media type in the second server\<close>
  "partial_content file rangeHeader contentType =
     (let fileSize = Num (int (length file));
          start = range_start rangeHeader;
          end = range_end rangeHeader fileSize;
          chunkSize = js_add (js_sub end start) (Num 1)
      in \<lparr>status = 206,
          headers =
            [(''Content-Range'',
                ''bytes '' @ toString start @ ''-'' @ toString end @ ''/'' @ toString fileSize),
             (''Accept-Ranges'', ''bytes''),
             (''Content-Length'', toString chunkSize),
             (''Content-Type'', contentType)],
          body = ByteStream (blob_slice file start (js_add end (Num 1)))\<rparr>)"

definition full_content :: "byte list \<Rightarrow> string \<Rightarrow> response" where
  "full_content file contentType =
     \<lparr>status = 200,
      headers =
        [(''Content-Length'', toString (Num (int (length file)))),
         (''Content-Type'', contentType)],
      body = ByteStream file\<rparr>"

definition stream_video :: "directory \<Rightarrow> string \<Rightarrow> string option \<Rightarrow> response" where
  \<comment> \<open>\<open>rangeHeader\<close> is \<^verbatim>\<open>c.req.header("range")\<close>; \<^verbatim>\<open>existsSync\<close> and
      \<^verbatim>\<open>Bun.file\<close> read the same entry, so one lookup decides both\<close>
  "stream_video fs filename rangeHeader =
     (if invalid_filename filename then json_error ''Invalid filename'' 400
      else (case map_of fs filename of
              None \<Rightarrow> json_error ''Video not found'' 404
            | Some file \<Rightarrow>
                if truthy rangeHeader then partial_content (data file) (the rangeHeader) ''video/mp4''
                else full_content (data file) ''video/mp4''))"

section \<open>The stream handler of the server with media types\<close>

text \<open>
  The second server (\<^verbatim>\<open>src/unnamed/part_000\<close>, from line 465) resolves a media type with
  \<^verbatim>\<open>mime.lookup\<close> of the package \<^verbatim>\<open>mime-types\<close>. Its table is not part of the
  repository: the handler takes the lookup as the parameter \<open>lookup\<close>, with \<open>None\<close> for
  \<^verbatim>\<open>false\<close>.
\<close>

definition resolve_mime :: "(string \<Rightarrow> string option) \<Rightarrow> string \<Rightarrow> string" where
  \<comment> \<open>\<^verbatim>\<open>mime.lookup(path.extname(filename)) || "application/octet-stream"\<close>\<close>
  "resolve_mime lookup filename =
     (case lookup (extname filename) of
        None \<Rightarrow> ''application/octet-stream''
      | Some m \<Rightarrow> if m = [] then ''application/octet-stream'' else m)"

definition stream_file ::
  "(string \<Rightarrow> string option) \<Rightarrow> directory \<Rightarrow> string \<Rightarrow> string option \<Rightarrow> response" where
  "stream_file lookup fs filename rangeHeader =
     (if invalid_filename filename then json_error ''Invalid filename'' 400
      else (case map_of fs filename of
              None \<Rightarrow> json_error ''File not found'' 404
            | Some file \<Rightarrow>
                let mimeType = resolve_mime lookup filename
                in if truthy rangeHeader \<and> starts_with mimeType ''video/''
                   then partial_content (data file) (the rangeHeader) mimeType
                   else full_content (data file) mimeType))"

definition sample_lookup :: "string \<Rightarrow> string option" where
  \<comment> \<open>the rows of the table of \<^verbatim>\<open>mime-types\<close> for the extensions of the sample files
      and of the allow-list of the second server, for evaluating the handler\<close>
  "sample_lookup ext =
     map_of [(''.mp4'', ''video/mp4''), (''.webm'', ''video/webm''),
             (''.ogg'', ''audio/ogg''), (''.mov'', ''video/quicktime''),
             (''.png'', ''image/png''), (''.jpg'', ''image/jpeg''),
             (''.jpeg'', ''image/jpeg''), (''.pdf'', ''application/pdf''),
             (''.txt'', ''text/plain'')] (toLowerCase ext)"

section \<open>Sample data for evaluating the handlers\<close>

definition clip :: stored_file where
  "clip = \<lparr>data = replicate 1000 0, birthtime = 1700000000000\<rparr>"

definition notes_txt :: stored_file where
  "notes_txt = \<lparr>data = [1, 2, 3], birthtime = 1700000000500\<rparr>"

definition sample_dir :: directory where
  "sample_dir = [(''1700000000000-clip.mp4'', clip), (''notes.txt'', notes_txt)]"

definition sample_dir3 :: directory where
  "sample_dir3 =
     [(''1-a.mp4'', \<lparr>data = [1, 2], birthtime = 100\<rparr>),
      (''notes.txt'', \<lparr>data = [], birthtime = 300\<rparr>),
      (''2-B.MP4'', \<lparr>data = [7], birthtime = 200\<rparr>)]"

section \<open>Facts about digits\<close>

lemma is_digit_digit_char: "d < 10 \<Longrightarrow> is_digit (digit_char d)"
  by (simp add: is_digit_def digit_char_def)

lemma digit_val_digit_char: "d < 10 \<Longrightarrow> digit_val (digit_char d) = d"
  by (simp add: digit_val_def digit_char_def)

lemma show_nat_digits: "\<forall>c \<in> set (show_nat n). is_digit c"
proof (induction n rule: show_nat.induct)
  case (1 n)
  show ?case
  proof (cases "n < 10")
    case True
    then show ?thesis by (simp add: show_nat.simps [of n] is_digit_digit_char)
  next
    case False
    with 1 show ?thesis by (simp add: show_nat.simps [of n] is_digit_digit_char)
  qed
qed

lemma show_nat_nonempty: "show_nat n \<noteq> []"
  by (simp add: show_nat.simps [of n])

lemma not_digit_hyphen: "\<not> is_digit CHR ''-''"
  by (simp add: is_digit_def)

lemma digits_val_snoc: "digits_val (ds @ [c]) = 10 * digits_val ds + digit_val c"
  by (simp add: digits_val_def)

lemma digits_val_show_nat: "digits_val (show_nat n) = n"
proof (induction n rule: show_nat.induct)
  case (1 n)
  show ?case
  proof (cases "n < 10")
    case True
    then show ?thesis
      by (simp add: show_nat.simps [of n] digits_val_def digit_val_digit_char)
  next
    case False
    with 1 show ?thesis
      by (simp add: show_nat.simps [of n] digits_val_snoc digit_val_digit_char)
  qed
qed

lemma takeWhile_digits_stop:
  "\<forall>c \<in> set ds. is_digit c \<Longrightarrow> \<not> is_digit x \<Longrightarrow> takeWhile is_digit (ds @ x # rest) = ds"
  by (induction ds) auto

lemma dropWhile_digits_stop:
  "\<forall>c \<in> set ds. is_digit c \<Longrightarrow> \<not> is_digit x \<Longrightarrow> dropWhile is_digit (ds @ x # rest) = x # rest"
  by (induction ds) auto

lemma decode_encode: "decode (encode d t) = d"
  by (simp add: decode_def encode_def takeWhile_digits_stop dropWhile_digits_stop
      show_nat_digits show_nat_nonempty not_digit_hyphen)

section \<open>Facts about the string methods and the range parts\<close>

lemma starts_with_append: "starts_with (p @ r) p"
  by (simp add: starts_with_def)

lemma includes_str_iff: "includes_str s p \<longleftrightarrow> (\<exists>a b. s = a @ p @ b)"
proof (induction s)
  case Nil
  then show ?case by auto
next
  case (Cons c cs)
  show ?case
  proof
    assume "includes_str (c # cs) p"
    then consider "starts_with (c # cs) p" | "includes_str cs p" by auto
    then show "\<exists>a b. c # cs = a @ p @ b"
    proof cases
      case 1
      then have "c # cs = [] @ p @ drop (length p) (c # cs)"
        unfolding starts_with_def by (metis append_Nil append_take_drop_id)
      then show ?thesis by blast
    next
      case 2
      with Cons obtain a b where "cs = a @ p @ b" by blast
      then have "c # cs = (c # a) @ p @ b" by simp
      then show ?thesis by blast
    qed
  next
    assume "\<exists>a b. c # cs = a @ p @ b"
    then obtain a b where ab: "c # cs = a @ p @ b" by blast
    show "includes_str (c # cs) p"
    proof (cases a)
      case Nil
      with ab have "starts_with (c # cs) p" by (simp add: starts_with_def)
      then show ?thesis by simp
    next
      case (Cons x a')
      with ab have "cs = a' @ p @ b" by simp
      with Cons.IH have "includes_str cs p" by blast
      then show ?thesis by simp
    qed
  qed
qed

lemma includes_str_char: "includes_str s [c] \<longleftrightarrow> c \<in> set s"
  by (induction s) (auto simp: starts_with_def)

lemma split_no_sep: "d \<notin> set a \<Longrightarrow> split d a = [a]"
  by (induction a) auto

lemma split_at_sep: "d \<notin> set a \<Longrightarrow> split d (a @ d # b) = a # split d b"
  by (induction a) auto

lemma digit_not_space: "is_digit c \<Longrightarrow> \<not> is_space c"
  by (auto simp: is_digit_def is_space_def)

lemma digit_not_sign: "is_digit c \<Longrightarrow> c \<noteq> CHR ''+'' \<and> c \<noteq> CHR ''-''"
  by (auto simp: is_digit_def)

lemma takeWhile_all_digits: "\<forall>c \<in> set ds. is_digit c \<Longrightarrow> takeWhile is_digit ds = ds"
  by (induction ds) auto

lemma parseInt_digits:
  assumes "ds \<noteq> []" and "\<forall>c \<in> set ds. is_digit c"
  shows "parseInt ds = Num (int (digits_val ds))"
proof -
  obtain c cs where ds: "ds = c # cs" using assms(1) by (cases ds) auto
  with assms(2) have c: "is_digit c" by simp
  have dw: "dropWhile is_space ds = ds" using c ds by (simp add: digit_not_space)
  have sign: "hd ds \<noteq> CHR ''+''" "hd ds \<noteq> CHR ''-''" using c ds digit_not_sign by auto
  have tw: "takeWhile is_digit ds = ds" using assms(2) by (rule takeWhile_all_digits)
  show ?thesis unfolding parseInt_def Let_def dw using sign assms(1) by (simp add: tw)
qed

lemma parseInt_show_nat: "parseInt (show_nat n) = Num (int n)"
  by (simp add: parseInt_digits show_nat_nonempty show_nat_digits digits_val_show_nat)

lemma parseInt_empty: "parseInt [] = NaN"
  by (simp add: parseInt_def)

lemma hyphen_not_in_show_nat: "CHR ''-'' \<notin> set (show_nat n)"
  using show_nat_digits not_digit_hyphen by blast

lemma replace_bytes_prefix: "replace_first ''bytes='' [] (''bytes='' @ r) = r"
  by (simp add: starts_with_def)

lemma range_start_closed: "range_start (''bytes='' @ show_nat s @ ''-'' @ r) = Num (int s)"
  using replace_bytes_prefix [of "show_nat s @ ''-'' @ r"]
  by (simp add: range_start_def split_at_sep hyphen_not_in_show_nat parseInt_show_nat)

lemma range_end_closed:
  "range_end (''bytes='' @ show_nat s @ ''-'' @ show_nat e) fileSize = Num (int e)"
  using replace_bytes_prefix [of "show_nat s @ ''-'' @ show_nat e"]
  by (simp add: range_end_def split_at_sep split_no_sep hyphen_not_in_show_nat
      parseInt_show_nat show_nat_nonempty)

lemma range_end_open:
  "range_end (''bytes='' @ show_nat s @ ''-'') (Num z) = Num (z - 1)"
  using replace_bytes_prefix [of "show_nat s @ ''-''"]
  by (simp add: range_end_def split_at_sep hyphen_not_in_show_nat)

lemma range_start_suffix: "range_start (''bytes=-'' @ r) = NaN"
  using replace_bytes_prefix [of "''-'' @ r"]
  by (simp add: range_start_def parseInt_empty)

lemma range_end_suffix: "range_end (''bytes=-'' @ show_nat n) fileSize = Num (int n)"
  using replace_bytes_prefix [of "''-'' @ show_nat n"]
  by (simp add: range_end_def split_no_sep hyphen_not_in_show_nat parseInt_show_nat
      show_nat_nonempty)

lemma toString_nat: "toString (Num (int n)) = show_nat n"
  by simp

section \<open>Facts about decoding, uploads and evaluation\<close>

lemma decode_strips_one_prefix:
  assumes "ds \<noteq> []" and "\<forall>c \<in> set ds. is_digit c"
  shows "decode (ds @ ''-'' @ rest) = rest"
  using assms
  by (simp add: decode_def takeWhile_digits_stop dropWhile_digits_stop not_digit_hyphen)

lemma decode_changes_only_prefixed:
  assumes "decode s \<noteq> s"
  shows "\<exists>ds rest. ds \<noteq> [] \<and> (\<forall>c \<in> set ds. is_digit c) \<and> s = ds @ ''-'' @ rest"
proof -
  from assms obtain rest where dw: "dropWhile is_digit s = CHR ''-'' # rest"
    and tw: "takeWhile is_digit s \<noteq> []"
    by (auto simp: decode_def split: list.splits if_splits)
  have "s = takeWhile is_digit s @ dropWhile is_digit s" by simp
  with dw have "s = takeWhile is_digit s @ ''-'' @ rest" by simp
  moreover have "\<forall>c \<in> set (takeWhile is_digit s). is_digit c"
    by (auto dest: set_takeWhileD)
  ultimately show ?thesis using tw by blast
qed

lemma upload_accepted:
  assumes "length (contents f) \<le> MAX_FILE_SIZE"
    and "toLowerCase (extname (name f)) \<in> set ALLOWED_EXTENSIONS"
  shows "upload bunWrite fs t (FormData (Some (FileEntry f))) =
    (case bunWrite fs (encode (name f) t) (contents f) of
       None \<Rightarrow> (fs, json_error ''Upload failed'' 500)
     | Some fs' \<Rightarrow>
         (fs',
          \<lparr>status = 200, headers = [],
           body = UploadJson
             \<lparr>message = ''File uploaded successfully'',
              up_filename = encode (name f) t,
              up_originalName = name f,
              up_size = length (contents f),
              up_url = ''/videos/uploads/'' @ encode (name f) t\<rparr>\<rparr>))"
  using assms by (simp add: upload_def)

lemma upload_ok_written:
  assumes "status (snd (upload bunWrite fs t (FormData (Some (FileEntry f))))) = 200"
  shows "bunWrite fs (encode (name f) t) (contents f)
           = Some (fst (upload bunWrite fs t (FormData (Some (FileEntry f)))))
         \<and> snd (upload bunWrite fs t (FormData (Some (FileEntry f)))) =
           \<lparr>status = 200, headers = [],
            body = UploadJson
              \<lparr>message = ''File uploaded successfully'',
               up_filename = encode (name f) t,
               up_originalName = name f,
               up_size = length (contents f),
               up_url = ''/videos/uploads/'' @ encode (name f) t\<rparr>\<rparr>"
  using assms
  by (auto simp: upload_def json_error_def split: if_splits option.splits)

lemma digit_char_values:
  "digit_char 0 = CHR ''0''" "digit_char 1 = CHR ''1''" "digit_char 2 = CHR ''2''"
  "digit_char 3 = CHR ''3''" "digit_char 4 = CHR ''4''" "digit_char 5 = CHR ''5''"
  "digit_char 6 = CHR ''6''" "digit_char 7 = CHR ''7''" "digit_char 8 = CHR ''8''"
  "digit_char 9 = CHR ''9''" "digit_char (Suc 0) = CHR ''1''"
  by (rule of_char_eqI [where ?'a = nat], simp add: digit_char_def)+

lemma show_nat_1700: "show_nat 1700000000000 = ''1700000000000''"
  by (simp add: show_nat.simps digit_char_values)

lemma extname_clip: "extname ''clip.mp4'' = ''.mp4''"
  by (simp add: extname_def last_segment_def)

lemma lower_mp4: "toLowerCase ''.mp4'' = ''.mp4''"
  by (simp add: toLowerCase_def)

section \<open>Facts about the stream handler\<close>

lemma stream_video_found:
  assumes "map_of fs filename = Some file" and "\<not> invalid_filename filename"
  shows "stream_video fs filename rangeHeader =
    (if truthy rangeHeader then partial_content (data file) (the rangeHeader) ''video/mp4''
     else full_content (data file) ''video/mp4'')"
  using assms by (simp add: stream_video_def)

lemma partial_content_status: "status (partial_content bs rangeHeader ct) = 206"
  by (simp add: partial_content_def Let_def)

lemma partial_content_closed:
  "partial_content bs (''bytes='' @ show_nat s @ ''-'' @ show_nat e) ct =
     \<lparr>status = 206,
      headers =
        [(''Content-Range'',
            ''bytes '' @ show_nat s @ ''-'' @ show_nat e @ ''/'' @ show_nat (length bs)),
         (''Accept-Ranges'', ''bytes''),
         (''Content-Length'', toString (Num (int e - int s + 1))),
         (''Content-Type'', ct)],
      body = ByteStream (blob_slice bs (Num (int s)) (Num (int e + 1)))\<rparr>"
  unfolding partial_content_def Let_def range_start_closed range_end_closed
  by (simp add: toString_nat del: toString.simps)

lemma range_start_open: "range_start (''bytes='' @ show_nat s @ ''-'') = Num (int s)"
  using range_start_closed [of s "[]"] by simp

lemma partial_content_open:
  "partial_content bs (''bytes='' @ show_nat s @ ''-'') ct =
     \<lparr>status = 206,
      headers =
        [(''Content-Range'',
            ''bytes '' @ show_nat s @ ''-'' @ toString (Num (int (length bs) - 1)) @ ''/''
              @ show_nat (length bs)),
         (''Accept-Ranges'', ''bytes''),
         (''Content-Length'', toString (Num (int (length bs) - 1 - int s + 1))),
         (''Content-Type'', ct)],
      body = ByteStream (blob_slice bs (Num (int s)) (Num (int (length bs))))\<rparr>"
  unfolding partial_content_def Let_def range_end_open range_start_open
  by (simp add: toString_nat del: toString.simps)

lemma partial_content_suffix:
  "partial_content bs (''bytes=-'' @ show_nat n) ct =
     \<lparr>status = 206,
      headers =
        [(''Content-Range'', ''bytes NaN-'' @ show_nat n @ ''/'' @ show_nat (length bs)),
         (''Accept-Ranges'', ''bytes''),
         (''Content-Length'', ''NaN''),
         (''Content-Type'', ct)],
      body = ByteStream (blob_slice bs NaN (Num (int n + 1)))\<rparr>"
  unfolding partial_content_def Let_def range_start_suffix range_end_suffix
  by simp

lemma blob_slice_nat:
  "blob_slice bs (Num (int a)) (Num (int b)) =
     take (min b (length bs) - min a (length bs)) (drop (min a (length bs)) bs)"
proof -
  have s: "min (int a) (int (length bs)) = int (min a (length bs))" by simp
  have e: "min (int b) (int (length bs)) = int (min b (length bs))" by simp
  have span: "nat (max (int (min b (length bs)) - int (min a (length bs))) 0) =
      min b (length bs) - min a (length bs)"
    by (simp add: max_def nat_diff_distrib')
  show ?thesis
    unfolding blob_slice_def to_integer_def Let_def
    by (simp only: jsnum.case of_nat_less_0_iff if_False s e span nat_int)
qed

lemma blob_slice_inside:
  assumes "e < length bs"
  shows "blob_slice bs (Num (int s)) (Num (int e + 1)) = take (Suc e - s) (drop s bs)"
proof -
  have "Num (int e + 1) = Num (int (Suc e))" by simp
  then show ?thesis using assms by (simp only: blob_slice_nat) (simp add: min_def)
qed

lemma blob_slice_to_end:
  assumes "s \<le> length bs" and "length bs \<le> e"
  shows "blob_slice bs (Num (int s)) (Num (int e)) = drop s bs"
  using assms by (simp add: blob_slice_nat min_def)

lemma blob_slice_from_NaN: "blob_slice bs NaN (Num (int n)) = take n bs"
  by (simp add: blob_slice_def to_integer_def Let_def min_def max_def)

lemma show_nat_small:
  "show_nat 0 = ''0''" "show_nat 99 = ''99''" "show_nat 100 = ''100''"
  "show_nat 500 = ''500''" "show_nat 999 = ''999''" "show_nat 1000 = ''1000''"
  by (simp_all add: show_nat.simps digit_char_values)

lemma stream_video_no_header:
  assumes "map_of fs filename = Some file" and "\<not> invalid_filename filename"
  shows "stream_video fs filename None =
    \<lparr>status = 200,
     headers = [(''Content-Length'', show_nat (length (data file))),
                (''Content-Type'', ''video/mp4'')],
     body = ByteStream (data file)\<rparr>"
  using assms by (simp add: stream_video_found truthy_def full_content_def)

lemma stream_video_header:
  assumes "map_of fs filename = Some file" and "\<not> invalid_filename filename"
    and "rangeHeader \<noteq> []"
  shows "stream_video fs filename (Some rangeHeader) =
    partial_content (data file) rangeHeader ''video/mp4''"
  using assms by (simp add: stream_video_found truthy_def)

lemma stream_video_closed_range:
  assumes "map_of fs filename = Some file" and "\<not> invalid_filename filename"
  shows "stream_video fs filename (Some (''bytes='' @ show_nat s @ ''-'' @ show_nat e)) =
       \<lparr>status = 206,
        headers =
          [(''Content-Range'',
              ''bytes '' @ show_nat s @ ''-'' @ show_nat e @ ''/''
                @ show_nat (length (data file))),
           (''Accept-Ranges'', ''bytes''),
           (''Content-Length'', toString (Num (int e - int s + 1))),
           (''Content-Type'', ''video/mp4'')],
        body = ByteStream (blob_slice (data file) (Num (int s)) (Num (int e + 1)))\<rparr>"
  using stream_video_header [OF assms, of "''bytes='' @ show_nat s @ ''-'' @ show_nat e"]
  by (simp only: partial_content_closed) simp

lemma stream_video_open_range:
  assumes "map_of fs filename = Some file" and "\<not> invalid_filename filename"
  shows "stream_video fs filename (Some (''bytes='' @ show_nat s @ ''-'')) =
       \<lparr>status = 206,
        headers =
          [(''Content-Range'',
              ''bytes '' @ show_nat s @ ''-'' @ toString (Num (int (length (data file)) - 1))
                @ ''/'' @ show_nat (length (data file))),
           (''Accept-Ranges'', ''bytes''),
           (''Content-Length'', toString (Num (int (length (data file)) - 1 - int s + 1))),
           (''Content-Type'', ''video/mp4'')],
        body = ByteStream
          (blob_slice (data file) (Num (int s)) (Num (int (length (data file)))))\<rparr>"
  using stream_video_header [OF assms, of "''bytes='' @ show_nat s @ ''-''"]
  by (simp only: partial_content_open) simp

section \<open>Facts about the sample data\<close>

lemma sample_dir_clip: "map_of sample_dir ''1700000000000-clip.mp4'' = Some clip"
  by (simp add: sample_dir_def)

lemma sample_dir_notes: "map_of sample_dir ''notes.txt'' = Some notes_txt"
  by (simp add: sample_dir_def)

lemma clip_name_valid: "\<not> invalid_filename ''1700000000000-clip.mp4''"
  by (simp add: invalid_filename_def starts_with_def)

lemma notes_name_valid: "\<not> invalid_filename ''notes.txt''"
  by (simp add: invalid_filename_def starts_with_def)

lemma length_clip: "length (data clip) = 1000"
  by (simp add: clip_def)

lemma show_nat_more:
  "show_nat 990 = ''990''" "show_nat 1009 = ''1009''" "show_nat 20 = ''20''"
  by (simp_all add: show_nat.simps digit_char_values)

lemma char_of_nat_eq: "char_of (n :: nat) = c \<longleftrightarrow> n mod 256 = of_char c"
proof -
  have "char_of n = c \<longleftrightarrow> char_of n = char_of (of_char c :: nat)" by simp
  also have "\<dots> \<longleftrightarrow> n mod 256 = of_char c" by (simp only: char_of_quasi_inj of_char_mod_256)
  finally show ?thesis .
qed

lemma ext_values:
  "toLowerCase (extname ''1-a.mp4'') = ''.mp4''"
  "toLowerCase (extname ''notes.txt'') = ''.txt''"
  "toLowerCase (extname ''2-B.MP4'') = ''.mp4''"
  "toLowerCase (extname ''1700000000000-clip.mp4'') = ''.mp4''"
  "toLowerCase (extname ''doc.exe'') = ''.exe''"
  by (simp_all add: extname_def last_segment_def toLowerCase_def Let_def char_of_nat_eq)

lemma sample_dir_exists_clip: "existsSync sample_dir ''1700000000000-clip.mp4''"
  by (simp add: existsSync_def sample_dir_def)

section \<open>Facts about listing and deleting\<close>

lemma collect_videos_listed_names:
  assumes "set files \<subseteq> fst ` set fs"
  shows "collect_videos fs files =
    Some (map (\<lambda>file. video_entry file (the (map_of fs file)))
      (filter (\<lambda>file. toLowerCase (extname file) \<in> set ALLOWED_EXTENSIONS) files))"
  using assms
proof (induction files)
  case Nil
  then show ?case by simp
next
  case (Cons x xs)
  then have "x \<in> fst ` set fs" by simp
  then obtain stats where "map_of fs x = Some stats"
    by (metis domD dom_map_of_conv_image_fst)
  with Cons show ?case by (simp add: stat_def)
qed

lemma list_videos_ok:
  "list_videos fs =
     \<lparr>status = 200, headers = [],
      body = VideosJson (sort_newest_first
        (map (\<lambda>file. video_entry file (the (map_of fs file)))
          (filter (\<lambda>file. toLowerCase (extname file) \<in> set ALLOWED_EXTENSIONS)
            (readdir fs))))\<rparr>"
  by (simp add: list_videos_def collect_videos_listed_names readdir_def)

lemma listed_eq:
  "listed fs = sort_newest_first
        (map (\<lambda>file. video_entry file (the (map_of fs file)))
          (filter (\<lambda>file. toLowerCase (extname file) \<in> set ALLOWED_EXTENSIONS)
            (readdir fs)))"
  by (simp add: listed_def list_videos_ok)

lemma vf_filename_video_entry: "vf_filename (video_entry file stats) = file"
  by (simp add: video_entry_def)

lemma listed_names:
  "set (map vf_filename (listed fs)) =
     {file \<in> set (readdir fs). toLowerCase (extname file) \<in> set ALLOWED_EXTENSIONS}"
  by (auto simp: listed_eq sort_newest_first_def vf_filename_video_entry image_iff)

lemma entries_of_distinct:
  assumes "distinct (map fst fs)"
  shows "map (\<lambda>file. f file (the (map_of fs file))) (filter P (map fst fs)) =
         map (\<lambda>(file, stats). f file stats) (filter (\<lambda>(file, stats). P file) fs)"
proof -
  have "map (\<lambda>file. f file (the (map_of fs file))) (filter P (map fst fs)) =
        map ((\<lambda>file. f file (the (map_of fs file))) \<circ> fst) (filter (P \<circ> fst) fs)"
    by (simp add: filter_map)
  also have "\<dots> = map (\<lambda>(file, stats). f file stats) (filter (P \<circ> fst) fs)"
    using assms by (intro map_cong) (auto simp: map_of_eq_Some_iff [THEN iffD2])
  also have "filter (P \<circ> fst) fs = filter (\<lambda>(file, stats). P file) fs"
    by (intro filter_cong) auto
  finally show ?thesis .
qed

lemma sorted_newest_first:
  "sorted_wrt (\<lambda>a b. uploadDate b \<le> uploadDate a) (sort_newest_first vs)"
proof -
  have "sorted (map (\<lambda>v. - uploadDate v) (sort_key (\<lambda>v. - uploadDate v) vs))"
    by (rule sorted_sort_key)
  then show ?thesis by (simp add: sort_newest_first_def sorted_map)
qed

lemma unlink_existing:
  "existsSync fs file \<Longrightarrow> unlink fs file = Some (filter (\<lambda>e. fst e \<noteq> file) fs)"
  by (simp add: unlink_def)

lemma not_exists_after_unlink: "\<not> existsSync (filter (\<lambda>e. fst e \<noteq> file) fs) file"
  by (induction fs) (auto simp: existsSync_def)

lemma delete_video_existing:
  assumes "\<not> invalid_filename filename" and "existsSync fs filename"
  shows "delete_video fs filename =
    (filter (\<lambda>e. fst e \<noteq> filename) fs,
     \<lparr>status = 200, headers = [], body = MessageJson ''Video deleted successfully''\<rparr>)"
  using assms by (simp add: delete_video_def unlink_existing)

lemma delete_video_missing:
  assumes "\<not> invalid_filename filename" and "\<not> existsSync fs filename"
  shows "delete_video fs filename = (fs, json_error ''Video not found'' 404)"
  using assms by (simp add: delete_video_def)

lemma delete_video_invalid:
  assumes "invalid_filename filename"
  shows "delete_video fs filename = (fs, json_error ''Invalid filename'' 400)"
  using assms by (simp add: delete_video_def)

section \<open>Facts about the filename check, media types and uploads\<close>

lemma invalid_filename_iff:
  "invalid_filename filename \<longleftrightarrow>
     (\<exists>a b. filename = a @ ''..'' @ b) \<or> CHR ''/'' \<in> set filename \<or> CHR 0x5C \<in> set filename"
  by (simp add: invalid_filename_def includes_str_iff [of filename "''..''"] includes_str_char)

lemma stream_video_invalid:
  "invalid_filename filename \<Longrightarrow>
   stream_video fs filename rangeHeader = json_error ''Invalid filename'' 400"
  by (simp add: stream_video_def)

lemma stream_video_status_valid:
  "\<not> invalid_filename filename \<Longrightarrow> status (stream_video fs filename rangeHeader) \<noteq> 400"
  by (simp add: stream_video_def json_error_def partial_content_status full_content_def
      split: option.splits)

lemma delete_video_status_valid:
  "\<not> invalid_filename filename \<Longrightarrow> status (snd (delete_video fs filename)) \<noteq> 400"
  by (simp add: delete_video_def json_error_def unlink_def)

lemma stream_file_found:
  assumes "map_of fs filename = Some file" and "\<not> invalid_filename filename"
  shows "stream_file lookup fs filename rangeHeader =
    (if truthy rangeHeader \<and> starts_with (resolve_mime lookup filename) ''video/''
     then partial_content (data file) (the rangeHeader) (resolve_mime lookup filename)
     else full_content (data file) (resolve_mime lookup filename))"
  using assms by (simp add: stream_file_def Let_def)

lemma full_content_status: "status (full_content bs ct) = 200"
  by (simp add: full_content_def)

lemma resolve_mime_sample:
  "resolve_mime sample_lookup ''notes.txt'' = ''text/plain''"
  "resolve_mime sample_lookup ''1700000000000-clip.mp4'' = ''video/mp4''"
  by (simp_all add: resolve_mime_def sample_lookup_def extname_def last_segment_def
      toLowerCase_def Let_def)

lemma show_nat_units:
  "show_nat 0 = ''0''" "show_nat 1 = ''1''" "show_nat 2 = ''2''" "show_nat 3 = ''3''"
  "show_nat (Suc 0) = ''1''"
  by (simp_all add: show_nat.simps digit_char_values)

lemma show_nat_length_notes: "show_nat (length (data notes_txt)) = ''3''"
proof -
  have "length (data notes_txt) = 3" by (simp add: notes_txt_def)
  then show ?thesis by (simp only: show_nat_units)
qed

lemma stream_video_suffix_range:
  assumes "map_of fs filename = Some file" and "\<not> invalid_filename filename"
  shows "stream_video fs filename (Some (''bytes=-'' @ show_nat n)) =
        \<lparr>status = 206,
         headers =
           [(''Content-Range'',
               ''bytes NaN-'' @ show_nat n @ ''/'' @ show_nat (length (data file))),
            (''Accept-Ranges'', ''bytes''),
            (''Content-Length'', ''NaN''),
            (''Content-Type'', ''video/mp4'')],
         body = ByteStream (take (Suc n) (data file))\<rparr>"
proof -
  have slice: "blob_slice (data file) NaN (Num (int n + 1)) = take (Suc n) (data file)"
  proof -
    have "blob_slice (data file) NaN (Num (int (Suc n))) = take (Suc n) (data file)"
      by (rule blob_slice_from_NaN)
    moreover have "int (Suc n) = int n + 1" by simp
    ultimately show ?thesis by metis
  qed
  show ?thesis
    using stream_video_header [OF assms, of "''bytes=-'' @ show_nat n"]
    by (simp only: partial_content_suffix slice) simp
qed

lemma upload_unchanged_unless_ok:
  "status (snd (upload bunWrite fs now req)) \<noteq> 200 \<Longrightarrow> fst (upload bunWrite fs now req) = fs"
  by (auto simp: upload_def json_error_def split: upload_body.splits option.splits
      form_entry.splits if_splits)

section \<open>C1: range resolution of the stream handler\<close>

text \<open>
  Claim C1. For a stream request that names an existing file: without a Range header the
  answer is 200 with the whole file and its size as Content-Length. With the header
  \<^verbatim>\<open>bytes=<start>-<end>\<close> the answer is 206 with Content-Range
  \<^verbatim>\<open>bytes start-end/size\<close>, Accept-Ranges \<^verbatim>\<open>bytes\<close> and Content-Length
  \<open>end - start + 1\<close>; an omitted end is \<open>size - 1\<close>. Nothing relates start, end and
  size: every non-empty header is answered with 206. For a file of 1000 bytes, no header
  gives length 1000 and status 200, \<^verbatim>\<open>bytes=0-99\<close> gives the window 0 to 99 with
  length 100, and \<^verbatim>\<open>bytes=500-\<close> gives the window 500 to 999 with length 500. The
  numbers \<open>start\<close> and \<open>end\<close> are taken below \<open>2 ^ 53\<close>, where the program's numbers
  are exact.
\<close>

theorem stream_video_range_resolution:
  assumes found: "map_of fs filename = Some file"
    and valid: "\<not> invalid_filename filename"
    and safe: "s < 2 ^ 53" "e < 2 ^ 53"
  shows
    "stream_video fs filename None =
       \<lparr>status = 200,
        headers = [(''Content-Length'', show_nat (length (data file))),
                   (''Content-Type'', ''video/mp4'')],
        body = ByteStream (data file)\<rparr>
     \<and> stream_video fs filename (Some (''bytes='' @ show_nat s @ ''-'' @ show_nat e)) =
       \<lparr>status = 206,
        headers =
          [(''Content-Range'',
              ''bytes '' @ show_nat s @ ''-'' @ show_nat e @ ''/''
                @ show_nat (length (data file))),
           (''Accept-Ranges'', ''bytes''),
           (''Content-Length'', toString (Num (int e - int s + 1))),
           (''Content-Type'', ''video/mp4'')],
        body = ByteStream (blob_slice (data file) (Num (int s)) (Num (int e + 1)))\<rparr>
     \<and> stream_video fs filename (Some (''bytes='' @ show_nat s @ ''-'')) =
       \<lparr>status = 206,
        headers =
          [(''Content-Range'',
              ''bytes '' @ show_nat s @ ''-'' @ toString (Num (int (length (data file)) - 1))
                @ ''/'' @ show_nat (length (data file))),
           (''Accept-Ranges'', ''bytes''),
           (''Content-Length'', toString (Num (int (length (data file)) - 1 - int s + 1))),
           (''Content-Type'', ''video/mp4'')],
        body = ByteStream
          (blob_slice (data file) (Num (int s)) (Num (int (length (data file)))))\<rparr>
     \<and> (rangeHeader \<noteq> [] \<longrightarrow> status (stream_video fs filename (Some rangeHeader)) = 206)
     \<and> (length (data file) = 1000 \<longrightarrow>
          stream_video fs filename None =
            \<lparr>status = 200,
             headers = [(''Content-Length'', ''1000''), (''Content-Type'', ''video/mp4'')],
             body = ByteStream (data file)\<rparr>
          \<and> stream_video fs filename (Some ''bytes=0-99'') =
            \<lparr>status = 206,
             headers =
               [(''Content-Range'', ''bytes 0-99/1000''), (''Accept-Ranges'', ''bytes''),
                (''Content-Length'', ''100''), (''Content-Type'', ''video/mp4'')],
             body = ByteStream (take 100 (data file))\<rparr>
          \<and> stream_video fs filename (Some ''bytes=500-'') =
            \<lparr>status = 206,
             headers =
               [(''Content-Range'', ''bytes 500-999/1000''), (''Accept-Ranges'', ''bytes''),
                (''Content-Length'', ''500''), (''Content-Type'', ''video/mp4'')],
             body = ByteStream (drop 500 (data file))\<rparr>)"
proof (intro conjI impI)
  show "stream_video fs filename None =
       \<lparr>status = 200,
        headers = [(''Content-Length'', show_nat (length (data file))),
                   (''Content-Type'', ''video/mp4'')],
        body = ByteStream (data file)\<rparr>"
    using found valid by (rule stream_video_no_header)
  show "stream_video fs filename (Some (''bytes='' @ show_nat s @ ''-'' @ show_nat e)) =
       \<lparr>status = 206,
        headers =
          [(''Content-Range'',
              ''bytes '' @ show_nat s @ ''-'' @ show_nat e @ ''/''
                @ show_nat (length (data file))),
           (''Accept-Ranges'', ''bytes''),
           (''Content-Length'', toString (Num (int e - int s + 1))),
           (''Content-Type'', ''video/mp4'')],
        body = ByteStream (blob_slice (data file) (Num (int s)) (Num (int e + 1)))\<rparr>"
    using found valid by (rule stream_video_closed_range)
  show "stream_video fs filename (Some (''bytes='' @ show_nat s @ ''-'')) =
       \<lparr>status = 206,
        headers =
          [(''Content-Range'',
              ''bytes '' @ show_nat s @ ''-'' @ toString (Num (int (length (data file)) - 1))
                @ ''/'' @ show_nat (length (data file))),
           (''Accept-Ranges'', ''bytes''),
           (''Content-Length'', toString (Num (int (length (data file)) - 1 - int s + 1))),
           (''Content-Type'', ''video/mp4'')],
        body = ByteStream
          (blob_slice (data file) (Num (int s)) (Num (int (length (data file)))))\<rparr>"
    using found valid by (rule stream_video_open_range)
next
  assume "rangeHeader \<noteq> []"
  then show "status (stream_video fs filename (Some rangeHeader)) = 206"
    using found valid by (simp add: stream_video_header partial_content_status)
next
  assume len: "length (data file) = 1000"
  show "stream_video fs filename None =
            \<lparr>status = 200,
             headers = [(''Content-Length'', ''1000''), (''Content-Type'', ''video/mp4'')],
             body = ByteStream (data file)\<rparr>"
    using stream_video_no_header [OF found valid] len by (simp add: show_nat_small)
  show "stream_video fs filename (Some ''bytes=0-99'') =
            \<lparr>status = 206,
             headers =
               [(''Content-Range'', ''bytes 0-99/1000''), (''Accept-Ranges'', ''bytes''),
                (''Content-Length'', ''100''), (''Content-Type'', ''video/mp4'')],
             body = ByteStream (take 100 (data file))\<rparr>"
    using stream_video_closed_range [OF found valid, of 0 99]
      blob_slice_inside [of 99 "data file" 0] len
    by (simp add: show_nat_small)
  show "stream_video fs filename (Some ''bytes=500-'') =
            \<lparr>status = 206,
             headers =
               [(''Content-Range'', ''bytes 500-999/1000''), (''Accept-Ranges'', ''bytes''),
                (''Content-Length'', ''500''), (''Content-Type'', ''video/mp4'')],
             body = ByteStream (drop 500 (data file))\<rparr>"
    using stream_video_open_range [OF found valid, of 500]
      blob_slice_to_end [of 500 "data file" 1000] len
    by (simp add: show_nat_small)
qed

theorem stream_video_range_resolution_witness:
  "map_of sample_dir ''1700000000000-clip.mp4'' = Some clip
   \<and> \<not> invalid_filename ''1700000000000-clip.mp4''
   \<and> (0 :: nat) < 2 ^ 53 \<and> (99 :: nat) < 2 ^ 53
   \<and> length (data clip) = 1000
   \<and> stream_video sample_dir ''1700000000000-clip.mp4'' None =
        \<lparr>status = 200,
         headers = [(''Content-Length'', ''1000''), (''Content-Type'', ''video/mp4'')],
         body = ByteStream (replicate 1000 0)\<rparr>
   \<and> stream_video sample_dir ''1700000000000-clip.mp4'' (Some ''bytes=0-99'') =
        \<lparr>status = 206,
         headers =
           [(''Content-Range'', ''bytes 0-99/1000''), (''Accept-Ranges'', ''bytes''),
            (''Content-Length'', ''100''), (''Content-Type'', ''video/mp4'')],
         body = ByteStream (replicate 100 0)\<rparr>
   \<and> stream_video sample_dir ''1700000000000-clip.mp4'' (Some ''bytes=500-'') =
        \<lparr>status = 206,
         headers =
           [(''Content-Range'', ''bytes 500-999/1000''), (''Accept-Ranges'', ''bytes''),
            (''Content-Length'', ''500''), (''Content-Type'', ''video/mp4'')],
         body = ByteStream (replicate 500 0)\<rparr>
   \<and> status (stream_video sample_dir ''1700000000000-clip.mp4'' (Some ''bytes=90-10'')) = 206"
proof -
  have small: "(0 :: nat) < 2 ^ 53" "(99 :: nat) < 2 ^ 53" by simp_all
  have header: "''bytes=90-10'' \<noteq> []" by simp
  show ?thesis
    using stream_video_range_resolution [OF sample_dir_clip clip_name_valid small,
        of "''bytes=90-10''"]
      sample_dir_clip clip_name_valid length_clip header
    by (simp add: clip_def show_nat_small blob_slice_def to_integer_def)
qed

section \<open>C2: ranges only for video types\<close>

text \<open>
  Claim C2 says of both stream handlers that a range answer (206) is given only for a file
  whose media type is streamable, and that a stored file of another type gets the whole
  file with 200 also when a Range header is supplied. The handler of
  \<^verbatim>\<open>src/be/index.ts\<close> resolves no media type and has no such test: for the stored file
  \<^verbatim>\<open>notes.txt\<close>, whose type in the table of \<^verbatim>\<open>mime-types\<close> is \<^verbatim>\<open>text/plain\<close>, the
  header \<^verbatim>\<open>bytes=0-1\<close> is answered with 206 and the first two bytes.
\<close>

theorem first_server_ranges_every_file:
  "map_of sample_dir ''notes.txt'' = Some notes_txt
   \<and> resolve_mime sample_lookup ''notes.txt'' = ''text/plain''
   \<and> stream_video sample_dir ''notes.txt'' (Some ''bytes=0-1'') =
       \<lparr>status = 206,
        headers =
          [(''Content-Range'', ''bytes 0-1/3''), (''Accept-Ranges'', ''bytes''),
           (''Content-Length'', ''2''), (''Content-Type'', ''video/mp4'')],
        body = ByteStream [1, 2]\<rparr>"
proof -
  have slice: "blob_slice (data notes_txt) (Num (int 0)) (Num (int 1 + 1)) = [1, 2]"
    by (simp add: blob_slice_def to_integer_def notes_txt_def)
  have len: "toString (Num (int 1 - int 0 + 1)) = ''2''"
    by (simp add: show_nat_units)
  have "stream_video sample_dir ''notes.txt'' (Some (''bytes='' @ show_nat 0 @ ''-'' @ show_nat 1)) =
       \<lparr>status = 206,
        headers =
          [(''Content-Range'', ''bytes '' @ show_nat 0 @ ''-'' @ show_nat 1 @ ''/'' @ ''3''),
           (''Accept-Ranges'', ''bytes''),
           (''Content-Length'', ''2''), (''Content-Type'', ''video/mp4'')],
        body = ByteStream [1, 2]\<rparr>"
    using stream_video_closed_range [OF sample_dir_notes notes_name_valid, of 0 1]
    unfolding show_nat_length_notes slice len .
  then show ?thesis
    using sample_dir_notes by (simp add: show_nat_units resolve_mime_sample)
qed

text \<open>
  Claim C2, amended. In the server with media types (\<^verbatim>\<open>src/unnamed/part_000\<close>) a range
  answer (206) is given only when the resolved media type of the file starts with
  \<^verbatim>\<open>video/\<close> and a Range header is present; for every stored file of another type
  the answer is 200 with the whole file, also when a Range header is supplied. The server
  of \<^verbatim>\<open>src/be/index.ts\<close> resolves no type: it answers every stored file with a range
  when a Range header is present, and labels what it serves \<^verbatim>\<open>video/mp4\<close>.
\<close>

theorem stream_file_ranged_only_for_video:
  assumes found: "map_of fs filename = Some file"
    and valid: "\<not> invalid_filename filename"
  shows
    "(\<not> starts_with (resolve_mime lookup filename) ''video/'' \<longrightarrow>
        stream_file lookup fs filename rangeHeader =
          \<lparr>status = 200,
           headers = [(''Content-Length'', show_nat (length (data file))),
                      (''Content-Type'', resolve_mime lookup filename)],
           body = ByteStream (data file)\<rparr>)
     \<and> (status (stream_file lookup fs filename rangeHeader) = 206 \<longrightarrow>
          starts_with (resolve_mime lookup filename) ''video/'' \<and> truthy rangeHeader)
     \<and> (starts_with (resolve_mime lookup filename) ''video/'' \<and> truthy rangeHeader \<longrightarrow>
          stream_file lookup fs filename rangeHeader =
            partial_content (data file) (the rangeHeader) (resolve_mime lookup filename))
     \<and> (truthy rangeHeader \<longrightarrow>
          stream_video fs filename rangeHeader =
            partial_content (data file) (the rangeHeader) ''video/mp4'')
     \<and> map_of (headers (stream_video fs filename rangeHeader)) ''Content-Type''
         = Some ''video/mp4''"
proof (intro conjI impI)
  assume "\<not> starts_with (resolve_mime lookup filename) ''video/''"
  then show "stream_file lookup fs filename rangeHeader =
          \<lparr>status = 200,
           headers = [(''Content-Length'', show_nat (length (data file))),
                      (''Content-Type'', resolve_mime lookup filename)],
           body = ByteStream (data file)\<rparr>"
    by (simp add: stream_file_found [OF found valid] full_content_def)
next
  assume ranged: "status (stream_file lookup fs filename rangeHeader) = 206"
  show "starts_with (resolve_mime lookup filename) ''video/''"
    using ranged by (auto simp: stream_file_found [OF found valid] full_content_status
        split: if_splits)
  show "truthy rangeHeader"
    using ranged by (auto simp: stream_file_found [OF found valid] full_content_status
        split: if_splits)
next
  assume "starts_with (resolve_mime lookup filename) ''video/'' \<and> truthy rangeHeader"
  then show "stream_file lookup fs filename rangeHeader =
            partial_content (data file) (the rangeHeader) (resolve_mime lookup filename)"
    by (simp add: stream_file_found [OF found valid])
next
  assume "truthy rangeHeader"
  then show "stream_video fs filename rangeHeader =
            partial_content (data file) (the rangeHeader) ''video/mp4''"
    by (simp add: stream_video_found [OF found valid])
next
  show "map_of (headers (stream_video fs filename rangeHeader)) ''Content-Type''
         = Some ''video/mp4''"
    by (simp add: stream_video_found [OF found valid] partial_content_def full_content_def
        Let_def)
qed

theorem stream_file_ranged_only_for_video_witness:
  "map_of sample_dir ''notes.txt'' = Some notes_txt
   \<and> \<not> invalid_filename ''notes.txt''
   \<and> \<not> starts_with (resolve_mime sample_lookup ''notes.txt'') ''video/''
   \<and> stream_file sample_lookup sample_dir ''notes.txt'' (Some ''bytes=0-1'') =
        \<lparr>status = 200,
         headers = [(''Content-Length'', ''3''), (''Content-Type'', ''text/plain'')],
         body = ByteStream [1, 2, 3]\<rparr>
   \<and> starts_with (resolve_mime sample_lookup ''1700000000000-clip.mp4'') ''video/''
   \<and> truthy (Some ''bytes=0-99'')
   \<and> status (stream_file sample_lookup sample_dir ''1700000000000-clip.mp4''
         (Some ''bytes=0-99'')) = 206
   \<and> status (stream_video sample_dir ''notes.txt'' (Some ''bytes=0-1'')) = 206
   \<and> map_of (headers (stream_video sample_dir ''notes.txt'' (Some ''bytes=0-1''))) ''Content-Type''
       = Some ''video/mp4''"
proof -
  have other: "\<not> starts_with (resolve_mime sample_lookup ''notes.txt'') ''video/''"
    by (simp add: resolve_mime_sample starts_with_def)
  have video: "starts_with (resolve_mime sample_lookup ''1700000000000-clip.mp4'') ''video/''"
    by (simp add: resolve_mime_sample starts_with_def)
  have header: "truthy (Some ''bytes=0-99'')" by (simp add: truthy_def)
  have header': "truthy (Some ''bytes=0-1'')" by (simp add: truthy_def)
  have full: "stream_file sample_lookup sample_dir ''notes.txt'' (Some ''bytes=0-1'') =
        \<lparr>status = 200,
         headers = [(''Content-Length'', show_nat (length (data notes_txt))),
                    (''Content-Type'', resolve_mime sample_lookup ''notes.txt'')],
         body = ByteStream (data notes_txt)\<rparr>"
    using stream_file_ranged_only_for_video [OF sample_dir_notes notes_name_valid,
        of sample_lookup "Some ''bytes=0-1''"] other
    by blast
  have label: "map_of (headers (stream_video sample_dir ''notes.txt'' (Some ''bytes=0-1'')))
      ''Content-Type'' = Some ''video/mp4''"
    using stream_file_ranged_only_for_video [OF sample_dir_notes notes_name_valid,
        of sample_lookup "Some ''bytes=0-1''"]
    by blast
  have first: "stream_video sample_dir ''notes.txt'' (Some ''bytes=0-1'') =
      partial_content (data notes_txt) (the (Some ''bytes=0-1'')) ''video/mp4''"
    using stream_file_ranged_only_for_video [OF sample_dir_notes notes_name_valid,
        of sample_lookup "Some ''bytes=0-1''"] header'
    by blast
  have ranged: "stream_file sample_lookup sample_dir ''1700000000000-clip.mp4''
      (Some ''bytes=0-99'') =
      partial_content (data clip) (the (Some ''bytes=0-99''))
        (resolve_mime sample_lookup ''1700000000000-clip.mp4'')"
    using stream_file_ranged_only_for_video [OF sample_dir_clip clip_name_valid,
        of sample_lookup "Some ''bytes=0-99''"] video header
    by blast
  have full': "stream_file sample_lookup sample_dir ''notes.txt'' (Some ''bytes=0-1'') =
        \<lparr>status = 200,
         headers = [(''Content-Length'', ''3''), (''Content-Type'', ''text/plain'')],
         body = ByteStream [1, 2, 3]\<rparr>"
    unfolding full show_nat_length_notes resolve_mime_sample by (simp add: notes_txt_def)
  have ranged': "status (stream_file sample_lookup sample_dir ''1700000000000-clip.mp4''
         (Some ''bytes=0-99'')) = 206"
    unfolding ranged by (rule partial_content_status)
  have first': "status (stream_video sample_dir ''notes.txt'' (Some ''bytes=0-1'')) = 206"
    unfolding first by (rule partial_content_status)
  show ?thesis
    using sample_dir_notes notes_name_valid other video header full' ranged' first' label
    by (intro conjI)
qed

section \<open>C3: files outside the allow-list\<close>

text \<open>
  Claim C3 says that a file whose extension is not in the allow-list is invisible to every
  operation: the listing omits it, and the stream and delete handlers treat its name as
  that of an absent file. The handlers do not do the second part. With \<^verbatim>\<open>notes.txt\<close> in
  the directory, the delete handler removes it and answers 200, and the stream handler
  serves its bytes; without it, both answer 404.
\<close>

theorem unlisted_file_is_served_and_deleted:
  "map_of sample_dir ''notes.txt'' = Some notes_txt
   \<and> toLowerCase (extname ''notes.txt'') \<notin> set ALLOWED_EXTENSIONS
   \<and> delete_video sample_dir ''notes.txt'' =
       ([(''1700000000000-clip.mp4'', clip)],
        \<lparr>status = 200, headers = [], body = MessageJson ''Video deleted successfully''\<rparr>)
   \<and> delete_video [(''1700000000000-clip.mp4'', clip)] ''notes.txt'' =
       ([(''1700000000000-clip.mp4'', clip)], json_error ''Video not found'' 404)
   \<and> stream_video sample_dir ''notes.txt'' None =
       \<lparr>status = 200,
        headers = [(''Content-Length'', ''3''), (''Content-Type'', ''video/mp4'')],
        body = ByteStream [1, 2, 3]\<rparr>
   \<and> stream_video [(''1700000000000-clip.mp4'', clip)] ''notes.txt'' None =
       json_error ''Video not found'' 404"
proof -
  have three: "show_nat (length (data notes_txt)) = ''3''"
  proof -
    have "length (data notes_txt) = 3" by (simp add: notes_txt_def)
    then show ?thesis by (simp add: show_nat.simps digit_char_values)
  qed
  have present: "existsSync sample_dir ''notes.txt''"
    by (simp add: existsSync_def sample_dir_def)
  have absent: "\<not> existsSync [(''1700000000000-clip.mp4'', clip)] ''notes.txt''"
    by (simp add: existsSync_def)
  have removed: "filter (\<lambda>e. fst e \<noteq> ''notes.txt'') sample_dir =
      [(''1700000000000-clip.mp4'', clip)]"
    by (simp add: sample_dir_def)
  have served: "stream_video sample_dir ''notes.txt'' None =
       \<lparr>status = 200,
        headers = [(''Content-Length'', ''3''), (''Content-Type'', ''video/mp4'')],
        body = ByteStream [1, 2, 3]\<rparr>"
    using stream_video_no_header [OF sample_dir_notes notes_name_valid]
    unfolding three by (simp add: notes_txt_def)
  have missing: "stream_video [(''1700000000000-clip.mp4'', clip)] ''notes.txt'' None =
       json_error ''Video not found'' 404"
    using notes_name_valid by (simp add: stream_video_def)
  show ?thesis
    using sample_dir_notes served missing
      delete_video_existing [OF notes_name_valid present]
      delete_video_missing [OF notes_name_valid absent]
    by (simp add: removed ext_values ALLOWED_EXTENSIONS_def)
qed

text \<open>
  Claim C3, amended. For a file of the directory whose extension, in lower case, is not in
  the allow-list: the listing omits it. The stream and delete handlers do not consult the
  allow-list: when the name passes the filename check, the delete handler removes the file
  and answers 200, and the stream handler serves it, whole without a Range header and as a
  range with one.
\<close>

theorem allow_list_hides_only_from_listing:
  assumes found: "map_of fs filename = Some file"
    and other: "toLowerCase (extname filename) \<notin> set ALLOWED_EXTENSIONS"
  shows
    "filename \<notin> set (map vf_filename (listed fs))
     \<and> (\<not> invalid_filename filename \<longrightarrow>
          delete_video fs filename =
            (filter (\<lambda>e. fst e \<noteq> filename) fs,
             \<lparr>status = 200, headers = [], body = MessageJson ''Video deleted successfully''\<rparr>)
          \<and> stream_video fs filename None =
              \<lparr>status = 200,
               headers = [(''Content-Length'', show_nat (length (data file))),
                          (''Content-Type'', ''video/mp4'')],
               body = ByteStream (data file)\<rparr>
          \<and> (rangeHeader \<noteq> [] \<longrightarrow>
                stream_video fs filename (Some rangeHeader) =
                  partial_content (data file) rangeHeader ''video/mp4''))"
proof (intro conjI impI)
  show "filename \<notin> set (map vf_filename (listed fs))"
    unfolding listed_names using other by simp
next
  assume valid: "\<not> invalid_filename filename"
  have present: "existsSync fs filename" using found by (simp add: existsSync_def)
  show "delete_video fs filename =
            (filter (\<lambda>e. fst e \<noteq> filename) fs,
             \<lparr>status = 200, headers = [], body = MessageJson ''Video deleted successfully''\<rparr>)"
    using valid present by (rule delete_video_existing)
  show "stream_video fs filename None =
              \<lparr>status = 200,
               headers = [(''Content-Length'', show_nat (length (data file))),
                          (''Content-Type'', ''video/mp4'')],
               body = ByteStream (data file)\<rparr>"
    using found valid by (rule stream_video_no_header)
next
  assume valid: "\<not> invalid_filename filename" and header: "rangeHeader \<noteq> []"
  show "stream_video fs filename (Some rangeHeader) =
          partial_content (data file) rangeHeader ''video/mp4''"
    using found valid header by (rule stream_video_header)
qed

theorem allow_list_hides_only_from_listing_witness:
  "map_of sample_dir ''notes.txt'' = Some notes_txt
   \<and> toLowerCase (extname ''notes.txt'') \<notin> set ALLOWED_EXTENSIONS
   \<and> \<not> invalid_filename ''notes.txt''
   \<and> ''notes.txt'' \<notin> set (map vf_filename (listed sample_dir))
   \<and> delete_video sample_dir ''notes.txt'' =
       ([(''1700000000000-clip.mp4'', clip)],
        \<lparr>status = 200, headers = [], body = MessageJson ''Video deleted successfully''\<rparr>)
   \<and> status (stream_video sample_dir ''notes.txt'' None) = 200
   \<and> body (stream_video sample_dir ''notes.txt'' None) = ByteStream [1, 2, 3]
   \<and> status (stream_video sample_dir ''notes.txt'' (Some ''bytes=0-1'')) = 206"
proof -
  have other: "toLowerCase (extname ''notes.txt'') \<notin> set ALLOWED_EXTENSIONS"
    by (simp add: ext_values ALLOWED_EXTENSIONS_def)
  have removed: "filter (\<lambda>e. fst e \<noteq> ''notes.txt'') sample_dir =
      [(''1700000000000-clip.mp4'', clip)]"
    by (simp add: sample_dir_def)
  have header: "''bytes=0-1'' \<noteq> []" by simp
  show ?thesis
    using allow_list_hides_only_from_listing [OF sample_dir_notes other, of "''bytes=0-1''"]
      sample_dir_notes other notes_name_valid header
    by (simp add: removed partial_content_status notes_txt_def)
qed

section \<open>C4: the filename check\<close>

text \<open>
  Claim C4 says that the check rejects exactly the names that contain a parent-directory
  segment \<^verbatim>\<open>..\<close> or a path separator, and accepts every other name. The handlers test
  for two consecutive dots anywhere in the name: \<^verbatim>\<open>a..b.mp4\<close> has no separator and no
  segment \<^verbatim>\<open>..\<close>, and both handlers answer it with 400 \<^verbatim>\<open>Invalid filename\<close>.
\<close>

theorem two_dots_inside_a_name_rejected:
  "\<not> has_parent_segment ''a..b.mp4''
   \<and> CHR ''/'' \<notin> set ''a..b.mp4''
   \<and> CHR 0x5C \<notin> set ''a..b.mp4''
   \<and> invalid_filename ''a..b.mp4''
   \<and> delete_video sample_dir ''a..b.mp4'' = (sample_dir, json_error ''Invalid filename'' 400)
   \<and> stream_video sample_dir ''a..b.mp4'' None = json_error ''Invalid filename'' 400"
proof -
  have rejected: "invalid_filename ''a..b.mp4''"
    by (simp add: invalid_filename_def starts_with_def)
  have no_segment: "\<not> has_parent_segment ''a..b.mp4''"
    by (simp add: has_parent_segment_def)
  show ?thesis
    using rejected no_segment
    by (simp add: delete_video_invalid stream_video_invalid)
qed

text \<open>
  Claim C4, amended. The delete and stream handlers answer 400 \<^verbatim>\<open>Invalid filename\<close>
  exactly for the names that contain two consecutive dots anywhere, a slash or a backslash,
  whatever the directory holds; for every other name they do not answer 400. The names
  \<^verbatim>\<open>../../etc/passwd\<close>, \<^verbatim>\<open>a/b.mp4\<close> and \<^verbatim>\<open>a\b.mp4\<close> are rejected and
  \<^verbatim>\<open>1700000000000-clip.mp4\<close> is accepted.
\<close>

theorem invalid_filename_exact:
  "(invalid_filename filename \<longleftrightarrow>
      (\<exists>a b. filename = a @ ''..'' @ b) \<or> CHR ''/'' \<in> set filename
        \<or> CHR 0x5C \<in> set filename)
   \<and> (delete_video fs filename = (fs, json_error ''Invalid filename'' 400)
        \<longleftrightarrow> invalid_filename filename)
   \<and> (status (snd (delete_video fs filename)) = 400 \<longleftrightarrow> invalid_filename filename)
   \<and> (stream_video fs filename rangeHeader = json_error ''Invalid filename'' 400
        \<longleftrightarrow> invalid_filename filename)
   \<and> (status (stream_video fs filename rangeHeader) = 400 \<longleftrightarrow> invalid_filename filename)
   \<and> invalid_filename ''../../etc/passwd''
   \<and> invalid_filename ''a/b.mp4''
   \<and> invalid_filename (''a'' @ [CHR 0x5C] @ ''b.mp4'')
   \<and> \<not> invalid_filename ''1700000000000-clip.mp4''"
proof (intro conjI)
  show "invalid_filename filename \<longleftrightarrow>
      (\<exists>a b. filename = a @ ''..'' @ b) \<or> CHR ''/'' \<in> set filename
        \<or> CHR 0x5C \<in> set filename"
    by (rule invalid_filename_iff)
  show "delete_video fs filename = (fs, json_error ''Invalid filename'' 400)
        \<longleftrightarrow> invalid_filename filename"
  proof
    assume "delete_video fs filename = (fs, json_error ''Invalid filename'' 400)"
    then have "status (snd (delete_video fs filename)) = 400" by (simp add: json_error_def)
    then show "invalid_filename filename" using delete_video_status_valid by blast
  next
    assume "invalid_filename filename"
    then show "delete_video fs filename = (fs, json_error ''Invalid filename'' 400)"
      by (rule delete_video_invalid)
  qed
  show "status (snd (delete_video fs filename)) = 400 \<longleftrightarrow> invalid_filename filename"
  proof
    assume "status (snd (delete_video fs filename)) = 400"
    then show "invalid_filename filename" using delete_video_status_valid by blast
  next
    assume "invalid_filename filename"
    then show "status (snd (delete_video fs filename)) = 400"
      by (simp add: delete_video_invalid json_error_def)
  qed
  show "stream_video fs filename rangeHeader = json_error ''Invalid filename'' 400
        \<longleftrightarrow> invalid_filename filename"
  proof
    assume "stream_video fs filename rangeHeader = json_error ''Invalid filename'' 400"
    then have "status (stream_video fs filename rangeHeader) = 400"
      by (simp add: json_error_def)
    then show "invalid_filename filename" using stream_video_status_valid by blast
  next
    assume "invalid_filename filename"
    then show "stream_video fs filename rangeHeader = json_error ''Invalid filename'' 400"
      by (rule stream_video_invalid)
  qed
  show "status (stream_video fs filename rangeHeader) = 400 \<longleftrightarrow> invalid_filename filename"
  proof
    assume "status (stream_video fs filename rangeHeader) = 400"
    then show "invalid_filename filename" using stream_video_status_valid by blast
  next
    assume "invalid_filename filename"
    then show "status (stream_video fs filename rangeHeader) = 400"
      by (simp add: stream_video_invalid json_error_def)
  qed
  show "invalid_filename ''../../etc/passwd''"
    by (simp add: invalid_filename_def starts_with_def)
  show "invalid_filename ''a/b.mp4''"
    by (simp add: invalid_filename_def starts_with_def)
  show "invalid_filename (''a'' @ [CHR 0x5C] @ ''b.mp4'')"
    by (simp add: invalid_filename_def starts_with_def)
  show "\<not> invalid_filename ''1700000000000-clip.mp4''"
    by (rule clip_name_valid)
qed

section \<open>C5: stored names and display names\<close>

text \<open>
  Claim C5. For every display name \<open>d\<close> and upload time \<open>t\<close> in milliseconds, the
  stored name is the decimal digits of \<open>t\<close>, a hyphen, and \<open>d\<close>, and decoding it gives
  \<open>d\<close> back. Decoding strips one leading run of digits with its hyphen and nothing more,
  and it returns a name without such a prefix unchanged. Whenever an upload is answered with
  200, the file was written under that stored name and the answer carries it.
\<close>

theorem decode_encode_roundtrip:
  "decode (encode d t) = d
   \<and> encode d t = show_nat t @ ''-'' @ d
   \<and> (ds \<noteq> [] \<and> (\<forall>c \<in> set ds. is_digit c) \<longrightarrow> decode (ds @ ''-'' @ rest) = rest)
   \<and> (\<not> (\<exists>ds rest. ds \<noteq> [] \<and> (\<forall>c \<in> set ds. is_digit c) \<and> s = ds @ ''-'' @ rest)
        \<longrightarrow> decode s = s)
   \<and> (status (snd (upload bunWrite fs t (FormData (Some (FileEntry f))))) = 200 \<longrightarrow>
        bunWrite fs (show_nat t @ ''-'' @ name f) (contents f)
          = Some (fst (upload bunWrite fs t (FormData (Some (FileEntry f)))))
        \<and> snd (upload bunWrite fs t (FormData (Some (FileEntry f)))) =
          \<lparr>status = 200, headers = [],
           body = UploadJson
             \<lparr>message = ''File uploaded successfully'',
              up_filename = show_nat t @ ''-'' @ name f,
              up_originalName = name f,
              up_size = length (contents f),
              up_url = ''/videos/uploads/'' @ show_nat t @ ''-'' @ name f\<rparr>\<rparr>)"
proof (intro conjI impI)
  show "decode (encode d t) = d" by (rule decode_encode)
  show "encode d t = show_nat t @ ''-'' @ d" by (simp add: encode_def)
next
  assume "ds \<noteq> [] \<and> (\<forall>c \<in> set ds. is_digit c)"
  then show "decode (ds @ ''-'' @ rest) = rest" using decode_strips_one_prefix [of ds rest] by blast
next
  assume "\<not> (\<exists>ds rest. ds \<noteq> [] \<and> (\<forall>c \<in> set ds. is_digit c) \<and> s = ds @ ''-'' @ rest)"
  then show "decode s = s" using decode_changes_only_prefixed by blast
next
  assume ok: "status (snd (upload bunWrite fs t (FormData (Some (FileEntry f))))) = 200"
  have stored: "encode (name f) t = show_nat t @ ''-'' @ name f" by (simp add: encode_def)
  show "bunWrite fs (show_nat t @ ''-'' @ name f) (contents f)
          = Some (fst (upload bunWrite fs t (FormData (Some (FileEntry f)))))"
    using upload_ok_written [OF ok] unfolding stored by blast
  show "snd (upload bunWrite fs t (FormData (Some (FileEntry f)))) =
          \<lparr>status = 200, headers = [],
           body = UploadJson
             \<lparr>message = ''File uploaded successfully'',
              up_filename = show_nat t @ ''-'' @ name f,
              up_originalName = name f,
              up_size = length (contents f),
              up_url = ''/videos/uploads/'' @ show_nat t @ ''-'' @ name f\<rparr>\<rparr>"
    using upload_ok_written [OF ok] unfolding stored by blast
qed

theorem decode_encode_roundtrip_witness:
  "decode (encode ''clip.mp4'' 1700000000000) = ''clip.mp4''
   \<and> encode ''clip.mp4'' 1700000000000 = ''1700000000000-clip.mp4''
   \<and> decode ''1700-12-a.mp4'' = ''12-a.mp4''
   \<and> decode ''x-1.mp4'' = ''x-1.mp4''
   \<and> upload (write_file 1700000000000) [] 1700000000000
        (FormData (Some (FileEntry \<lparr>name = ''clip.mp4'', contents = [1, 2]\<rparr>))) =
       ([(''1700000000000-clip.mp4'', \<lparr>data = [1, 2], birthtime = 1700000000000\<rparr>)],
        \<lparr>status = 200, headers = [],
         body = UploadJson
           \<lparr>message = ''File uploaded successfully'',
            up_filename = ''1700000000000-clip.mp4'',
            up_originalName = ''clip.mp4'',
            up_size = 2,
            up_url = ''/videos/uploads/1700000000000-clip.mp4''\<rparr>\<rparr>)"
proof -
  have digits: "''1700'' \<noteq> [] \<and> (\<forall>c \<in> set ''1700''. is_digit c)"
    by (simp add: is_digit_def)
  have plain: "\<not> (\<exists>ds rest. ds \<noteq> [] \<and> (\<forall>c \<in> set ds. is_digit c)
      \<and> ''x-1.mp4'' = ds @ ''-'' @ rest)"
  proof
    assume "\<exists>ds rest. ds \<noteq> [] \<and> (\<forall>c \<in> set ds. is_digit c) \<and> ''x-1.mp4'' = ds @ ''-'' @ rest"
    then obtain ds rest where "ds \<noteq> []" "\<forall>c \<in> set ds. is_digit c" "''x-1.mp4'' = ds @ ''-'' @ rest"
      by blast
    then have "is_digit CHR ''x''" by (cases ds) auto
    then show False by (simp add: is_digit_def)
  qed
  have written: "write_file 1700000000000 [] ''1700000000000-clip.mp4'' [1, 2] =
      Some [(''1700000000000-clip.mp4'', \<lparr>data = [1, 2], birthtime = 1700000000000\<rparr>)]"
    by (simp add: write_file_def existsSync_def)
  have ok: "status (snd (upload (write_file 1700000000000) [] 1700000000000
        (FormData (Some (FileEntry \<lparr>name = ''clip.mp4'', contents = [1, 2]\<rparr>))))) = 200"
    by (simp add: upload_def MAX_FILE_SIZE_def ALLOWED_EXTENSIONS_def extname_clip lower_mp4
        encode_def show_nat_1700 written)
  show ?thesis
    using digits plain ok written
      decode_encode_roundtrip [of "''clip.mp4''" 1700000000000 "''1700''" "''12-a.mp4''"
        "''x-1.mp4''" "write_file 1700000000000" "[]"
        "\<lparr>name = ''clip.mp4'', contents = [1, 2]\<rparr>"]
    by (simp add: show_nat_1700 encode_def prod_eq_iff)
qed

section \<open>C6: rejected uploads\<close>

text \<open>
  Claim C6. An upload is answered with 400 when the form has no file in its field, when
  the file is larger than 500 MiB (524288000 bytes), and when the extension of its name is
  not in the allow-list; and whenever an upload is not answered with 200 the directory is
  what it was. A file named \<^verbatim>\<open>doc.exe\<close> is rejected with 400 and nothing is written.
\<close>

theorem upload_rejections_leave_directory:
  "upload bunWrite fs now (FormData None) = (fs, json_error ''No file provided'' 400)
   \<and> (MAX_FILE_SIZE < length (contents f) \<longrightarrow>
        upload bunWrite fs now (FormData (Some (FileEntry f))) =
          (fs, json_error ''File too large. Maximum size is 500MB'' 400))
   \<and> (toLowerCase (extname (name g)) \<notin> set ALLOWED_EXTENSIONS \<longrightarrow>
        fst (upload bunWrite fs now (FormData (Some (FileEntry g)))) = fs
        \<and> status (snd (upload bunWrite fs now (FormData (Some (FileEntry g))))) = 400)
   \<and> (status (snd (upload bunWrite fs now req)) \<noteq> 200 \<longrightarrow> fst (upload bunWrite fs now req) = fs)
   \<and> MAX_FILE_SIZE = 524288000
   \<and> fst (upload bunWrite fs now (FormData (Some (FileEntry \<lparr>name = ''doc.exe'', contents = bs\<rparr>)))) = fs
   \<and> status (snd (upload bunWrite fs now
         (FormData (Some (FileEntry \<lparr>name = ''doc.exe'', contents = bs\<rparr>))))) = 400"
proof (intro conjI impI)
  show "upload bunWrite fs now (FormData None) = (fs, json_error ''No file provided'' 400)"
    by (simp add: upload_def)
  show "MAX_FILE_SIZE = 524288000" by (simp add: MAX_FILE_SIZE_def)
next
  assume "MAX_FILE_SIZE < length (contents f)"
  then show "upload bunWrite fs now (FormData (Some (FileEntry f))) =
          (fs, json_error ''File too large. Maximum size is 500MB'' 400)"
    by (simp add: upload_def)
next
  assume other: "toLowerCase (extname (name g)) \<notin> set ALLOWED_EXTENSIONS"
  then show "fst (upload bunWrite fs now (FormData (Some (FileEntry g)))) = fs"
    by (simp add: upload_def)
  from other show "status (snd (upload bunWrite fs now (FormData (Some (FileEntry g))))) = 400"
    by (simp add: upload_def json_error_def)
next
  assume "status (snd (upload bunWrite fs now req)) \<noteq> 200"
  then show "fst (upload bunWrite fs now req) = fs" by (rule upload_unchanged_unless_ok)
next
  have exe: "toLowerCase (extname (name \<lparr>name = ''doc.exe'', contents = bs\<rparr>))
      \<notin> set ALLOWED_EXTENSIONS"
    by (simp add: ext_values ALLOWED_EXTENSIONS_def)
  then show "fst (upload bunWrite fs now
      (FormData (Some (FileEntry \<lparr>name = ''doc.exe'', contents = bs\<rparr>)))) = fs"
    by (simp add: upload_def)
  from exe show "status (snd (upload bunWrite fs now
         (FormData (Some (FileEntry \<lparr>name = ''doc.exe'', contents = bs\<rparr>))))) = 400"
    by (simp add: upload_def json_error_def)
qed

theorem upload_rejections_leave_directory_witness:
  "MAX_FILE_SIZE < length (contents \<lparr>name = ''clip.mp4'', contents = replicate 524288001 (0 :: byte)\<rparr>)
   \<and> upload (write_file 1700000000000) sample_dir 1700000000000
        (FormData (Some (FileEntry \<lparr>name = ''clip.mp4'', contents = replicate 524288001 0\<rparr>))) =
       (sample_dir, json_error ''File too large. Maximum size is 500MB'' 400)
   \<and> toLowerCase (extname (name \<lparr>name = ''doc.exe'', contents = [1, 2 :: byte]\<rparr>))
        \<notin> set ALLOWED_EXTENSIONS
   \<and> upload (write_file 1700000000000) sample_dir 1700000000000
        (FormData (Some (FileEntry \<lparr>name = ''doc.exe'', contents = [1, 2]\<rparr>))) =
       (sample_dir, json_error ''Only MP4 files are allowed'' 400)
   \<and> status (snd (upload (write_file 1700000000000) sample_dir 1700000000000 NotFormData)) \<noteq> 200
   \<and> fst (upload (write_file 1700000000000) sample_dir 1700000000000 NotFormData) = sample_dir
   \<and> upload (write_file 1700000000000) sample_dir 1700000000000 (FormData None) =
       (sample_dir, json_error ''No file provided'' 400)"
proof -
  have big: "MAX_FILE_SIZE
      < length (contents \<lparr>name = ''clip.mp4'', contents = replicate 524288001 (0 :: byte)\<rparr>)"
    by (simp add: MAX_FILE_SIZE_def)
  have exe: "toLowerCase (extname (name \<lparr>name = ''doc.exe'', contents = [1, 2 :: byte]\<rparr>))
      \<notin> set ALLOWED_EXTENSIONS"
    by (simp add: ext_values ALLOWED_EXTENSIONS_def)
  have failed: "status (snd (upload (write_file 1700000000000) sample_dir 1700000000000 NotFormData)) \<noteq> 200"
    by (simp add: upload_def json_error_def)
  have message: "snd (upload (write_file 1700000000000) sample_dir 1700000000000
        (FormData (Some (FileEntry \<lparr>name = ''doc.exe'', contents = [1, 2]\<rparr>)))) =
       json_error ''Only MP4 files are allowed'' 400"
    using exe by (simp add: upload_def MAX_FILE_SIZE_def)
  show ?thesis
    using upload_rejections_leave_directory [of "write_file 1700000000000" sample_dir 1700000000000
        "\<lparr>name = ''clip.mp4'', contents = replicate 524288001 0\<rparr>"
        "\<lparr>name = ''doc.exe'', contents = [1, 2]\<rparr>" NotFormData "[1, 2]"]
      big exe failed message
    by (simp add: prod_eq_iff)
qed

section \<open>C7: deletion\<close>

text \<open>
  Claim C7. For a name that passes the filename check: when a file of that name exists,
  the delete handler removes the entry (and no other) and answers 200; when none exists it
  answers 404 and leaves the directory as it is. So after a successful delete the name is
  gone, a second delete of the same name answers 404, and a listing does not contain it.
\<close>

theorem delete_video_finality:
  assumes valid: "\<not> invalid_filename filename"
  shows
    "(existsSync fs filename \<longrightarrow>
        delete_video fs filename =
          (filter (\<lambda>e. fst e \<noteq> filename) fs,
           \<lparr>status = 200, headers = [], body = MessageJson ''Video deleted successfully''\<rparr>)
        \<and> \<not> existsSync (filter (\<lambda>e. fst e \<noteq> filename) fs) filename
        \<and> delete_video (filter (\<lambda>e. fst e \<noteq> filename) fs) filename =
            (filter (\<lambda>e. fst e \<noteq> filename) fs, json_error ''Video not found'' 404)
        \<and> filename \<notin> set (map vf_filename (listed (filter (\<lambda>e. fst e \<noteq> filename) fs))))
     \<and> (\<not> existsSync fs filename \<longrightarrow>
          delete_video fs filename = (fs, json_error ''Video not found'' 404))"
proof (intro conjI impI)
  assume present: "existsSync fs filename"
  show "delete_video fs filename =
          (filter (\<lambda>e. fst e \<noteq> filename) fs,
           \<lparr>status = 200, headers = [], body = MessageJson ''Video deleted successfully''\<rparr>)"
    using valid present by (rule delete_video_existing)
next
  show gone: "\<not> existsSync (filter (\<lambda>e. fst e \<noteq> filename) fs) filename"
    by (rule not_exists_after_unlink)
  show "delete_video (filter (\<lambda>e. fst e \<noteq> filename) fs) filename =
            (filter (\<lambda>e. fst e \<noteq> filename) fs, json_error ''Video not found'' 404)"
    using valid gone by (rule delete_video_missing)
  have "filename \<notin> set (readdir (filter (\<lambda>e. fst e \<noteq> filename) fs))"
    by (auto simp: readdir_def)
  then show "filename \<notin> set (map vf_filename (listed (filter (\<lambda>e. fst e \<noteq> filename) fs)))"
    unfolding listed_names by simp
next
  assume "\<not> existsSync fs filename"
  with valid show "delete_video fs filename = (fs, json_error ''Video not found'' 404)"
    by (rule delete_video_missing)
qed

theorem delete_video_finality_witness:
  "\<not> invalid_filename ''1700000000000-clip.mp4''
   \<and> existsSync sample_dir ''1700000000000-clip.mp4''
   \<and> delete_video sample_dir ''1700000000000-clip.mp4'' =
       ([(''notes.txt'', notes_txt)],
        \<lparr>status = 200, headers = [], body = MessageJson ''Video deleted successfully''\<rparr>)
   \<and> \<not> existsSync [(''notes.txt'', notes_txt)] ''1700000000000-clip.mp4''
   \<and> delete_video [(''notes.txt'', notes_txt)] ''1700000000000-clip.mp4'' =
       ([(''notes.txt'', notes_txt)], json_error ''Video not found'' 404)
   \<and> ''1700000000000-clip.mp4'' \<notin> set (map vf_filename (listed [(''notes.txt'', notes_txt)]))"
proof -
  have removed: "filter (\<lambda>e. fst e \<noteq> ''1700000000000-clip.mp4'') sample_dir =
      [(''notes.txt'', notes_txt)]"
    by (simp add: sample_dir_def)
  show ?thesis
    using delete_video_finality [OF clip_name_valid, of sample_dir]
      clip_name_valid sample_dir_exists_clip
    unfolding removed by simp
qed

section \<open>C8: the listing\<close>

text \<open>
  Claim C8. The listing is computed from the directory as it is at the call: it answers 200
  with one entry for each directory entry whose extension, in lower case, is in the
  allow-list, and for no other; an entry carries the size and the creation time of the
  file's metadata; and the entries are ordered by creation time, newest first. The names of
  a directory are distinct.
\<close>

theorem list_videos_newest_first:
  assumes names: "distinct (readdir fs)"
  shows
    "list_videos fs = \<lparr>status = 200, headers = [], body = VideosJson (listed fs)\<rparr>
     \<and> mset (listed fs) =
         mset (map (\<lambda>(file, stats).
                 \<lparr>vf_filename = file, originalName = decode file,
                  size_bytes = length (data stats), uploadDate = birthtime stats,
                  url = ''/videos/uploads/'' @ file\<rparr>)
               (filter (\<lambda>(file, stats). toLowerCase (extname file) \<in> set ALLOWED_EXTENSIONS)
                  fs))
     \<and> sorted_wrt (\<lambda>a b. uploadDate b \<le> uploadDate a) (listed fs)"
proof (intro conjI)
  show "list_videos fs = \<lparr>status = 200, headers = [], body = VideosJson (listed fs)\<rparr>"
    by (simp add: listed_eq list_videos_ok)
  have "map (\<lambda>file. video_entry file (the (map_of fs file)))
          (filter (\<lambda>file. toLowerCase (extname file) \<in> set ALLOWED_EXTENSIONS) (map fst fs)) =
        map (\<lambda>(file, stats). video_entry file stats)
          (filter (\<lambda>(file, stats). toLowerCase (extname file) \<in> set ALLOWED_EXTENSIONS) fs)"
    using names unfolding readdir_def by (rule entries_of_distinct)
  then show "mset (listed fs) =
         mset (map (\<lambda>(file, stats).
                 \<lparr>vf_filename = file, originalName = decode file,
                  size_bytes = length (data stats), uploadDate = birthtime stats,
                  url = ''/videos/uploads/'' @ file\<rparr>)
               (filter (\<lambda>(file, stats). toLowerCase (extname file) \<in> set ALLOWED_EXTENSIONS)
                  fs))"
    by (simp add: listed_eq sort_newest_first_def readdir_def video_entry_def)
  show "sorted_wrt (\<lambda>a b. uploadDate b \<le> uploadDate a) (listed fs)"
    by (simp add: listed_eq sorted_newest_first)
qed

theorem list_videos_newest_first_witness:
  "distinct (readdir sample_dir3)
   \<and> list_videos sample_dir3 =
       \<lparr>status = 200, headers = [],
        body = VideosJson
          [\<lparr>vf_filename = ''2-B.MP4'', originalName = ''B.MP4'', size_bytes = 1,
            uploadDate = 200, url = ''/videos/uploads/2-B.MP4''\<rparr>,
           \<lparr>vf_filename = ''1-a.mp4'', originalName = ''a.mp4'', size_bytes = 2,
            uploadDate = 100, url = ''/videos/uploads/1-a.mp4''\<rparr>]\<rparr>
   \<and> sorted_wrt (\<lambda>a b. uploadDate b \<le> uploadDate a) (listed sample_dir3)"
proof -
  have names: "distinct (readdir sample_dir3)"
    by (simp add: readdir_def sample_dir3_def)
  have computed: "listed sample_dir3 =
          [\<lparr>vf_filename = ''2-B.MP4'', originalName = ''B.MP4'', size_bytes = 1,
            uploadDate = 200, url = ''/videos/uploads/2-B.MP4''\<rparr>,
           \<lparr>vf_filename = ''1-a.mp4'', originalName = ''a.mp4'', size_bytes = 2,
            uploadDate = 100, url = ''/videos/uploads/1-a.mp4''\<rparr>]"
    by (simp add: listed_eq readdir_def sample_dir3_def ext_values ALLOWED_EXTENSIONS_def
        sort_newest_first_def video_entry_def decode_def is_digit_def)
  show ?thesis
    using list_videos_newest_first [OF names] names by (simp add: computed)
qed

section \<open>C9: a range that ends past the file\<close>

text \<open>
  Claim C9. For a Range header \<^verbatim>\<open>bytes=<start>-<end>\<close> on an existing file with
  \<open>start\<close> inside the file and \<open>end\<close> at or past its size, the answer is still 206 and
  declares Content-Length \<open>end - start + 1\<close>, while the body is the slice clamped to
  the file: the \<open>size - start\<close> bytes from \<open>start\<close>, strictly fewer than declared.
\<close>

theorem range_past_end_length_disagrees:
  assumes found: "map_of fs filename = Some file"
    and valid: "\<not> invalid_filename filename"
    and inside: "s < length (data file)"
    and past: "length (data file) \<le> e"
    and safe: "e < 2 ^ 53"
  shows
    "status (stream_video fs filename (Some (''bytes='' @ show_nat s @ ''-'' @ show_nat e))) = 206
     \<and> map_of (headers (stream_video fs filename
            (Some (''bytes='' @ show_nat s @ ''-'' @ show_nat e)))) ''Content-Length''
         = Some (show_nat (e - s + 1))
     \<and> body (stream_video fs filename (Some (''bytes='' @ show_nat s @ ''-'' @ show_nat e)))
         = ByteStream (drop s (data file))
     \<and> length (drop s (data file)) = length (data file) - s
     \<and> length (data file) - s < e - s + 1"
proof -
  have len: "toString (Num (int e - int s + 1)) = show_nat (e - s + 1)"
  proof -
    have "int e - int s + 1 = int (e - s + 1)" using inside past by simp
    then show ?thesis by (simp only: toString_nat)
  qed
  have slice: "blob_slice (data file) (Num (int s)) (Num (int e + 1)) = drop s (data file)"
  proof -
    have "blob_slice (data file) (Num (int s)) (Num (int (Suc e))) = drop s (data file)"
      using inside past by (intro blob_slice_to_end) simp_all
    moreover have "int (Suc e) = int e + 1" by simp
    ultimately show ?thesis by metis
  qed
  show ?thesis
    unfolding stream_video_closed_range [OF found valid] len slice
    using inside past by simp
qed

theorem range_past_end_length_disagrees_witness:
  "map_of sample_dir ''1700000000000-clip.mp4'' = Some clip
   \<and> \<not> invalid_filename ''1700000000000-clip.mp4''
   \<and> (990 :: nat) < length (data clip) \<and> length (data clip) \<le> 1009
   \<and> (1009 :: nat) < 2 ^ 53
   \<and> status (stream_video sample_dir ''1700000000000-clip.mp4'' (Some ''bytes=990-1009'')) = 206
   \<and> map_of (headers (stream_video sample_dir ''1700000000000-clip.mp4''
          (Some ''bytes=990-1009''))) ''Content-Length'' = Some ''20''
   \<and> body (stream_video sample_dir ''1700000000000-clip.mp4'' (Some ''bytes=990-1009''))
       = ByteStream (replicate 10 0)"
proof -
  have inside: "990 < length (data clip)" and past: "length (data clip) \<le> 1009"
    by (simp_all add: clip_def)
  have safe: "(1009 :: nat) < 2 ^ 53" by simp
  show ?thesis
    using range_past_end_length_disagrees [OF sample_dir_clip clip_name_valid inside past safe]
      sample_dir_clip clip_name_valid inside past
    by (simp add: show_nat_more clip_def)
qed

section \<open>C10: a suffix range\<close>

text \<open>
  Claim C10 says that for every Range header \<^verbatim>\<open>bytes=-N\<close> the handler does not serve the
  final \<open>N\<close> bytes. When \<open>N\<close> is the size of the file it does: for \<^verbatim>\<open>notes.txt\<close> of
  three bytes and \<^verbatim>\<open>bytes=-3\<close> the body is the slice from 0 to 4, clamped to the whole
  file, which is the final three bytes. The status is 206 and the headers hold
  \<^verbatim>\<open>NaN\<close> all the same.
\<close>

theorem suffix_range_of_whole_file:
  "map_of sample_dir ''notes.txt'' = Some notes_txt
   \<and> length (data notes_txt) = 3
   \<and> stream_video sample_dir ''notes.txt'' (Some ''bytes=-3'') =
       \<lparr>status = 206,
        headers =
          [(''Content-Range'', ''bytes NaN-3/3''), (''Accept-Ranges'', ''bytes''),
           (''Content-Length'', ''NaN''), (''Content-Type'', ''video/mp4'')],
        body = ByteStream (drop (length (data notes_txt) - 3) (data notes_txt))\<rparr>
   \<and> drop (length (data notes_txt) - 3) (data notes_txt) = [1, 2, 3]"
proof -
  have "stream_video sample_dir ''notes.txt'' (Some (''bytes=-'' @ show_nat 3)) =
        \<lparr>status = 206,
         headers =
           [(''Content-Range'', ''bytes NaN-'' @ show_nat 3 @ ''/'' @ ''3''),
            (''Accept-Ranges'', ''bytes''),
            (''Content-Length'', ''NaN''),
            (''Content-Type'', ''video/mp4'')],
         body = ByteStream (take (Suc 3) (data notes_txt))\<rparr>"
    using stream_video_suffix_range [OF sample_dir_notes notes_name_valid, of 3]
    unfolding show_nat_length_notes .
  then show ?thesis
    using sample_dir_notes by (simp add: show_nat_units notes_txt_def)
qed

text \<open>
  Claim C10, amended. For a Range header \<^verbatim>\<open>bytes=-N\<close> on an existing file, the empty
  start parses to \<^verbatim>\<open>NaN\<close>; the request is not rejected, the answer is 206, and
  \<^verbatim>\<open>NaN\<close> is written into Content-Range and Content-Length (so the declared length is
  never \<open>N\<close>). The body is the slice from 0 to \<open>N + 1\<close>, the first \<open>N + 1\<close> bytes of the
  file: for \<open>N\<close> below the file size that is not the final \<open>N\<close> bytes, and for \<open>N\<close> at or
  past the file size it is the whole file.
\<close>

theorem suffix_range_start_is_NaN:
  assumes found: "map_of fs filename = Some file"
    and valid: "\<not> invalid_filename filename"
    and safe: "n < 2 ^ 53"
  shows
    "range_start (''bytes=-'' @ show_nat n) = NaN
     \<and> stream_video fs filename (Some (''bytes=-'' @ show_nat n)) =
        \<lparr>status = 206,
         headers =
           [(''Content-Range'',
               ''bytes NaN-'' @ show_nat n @ ''/'' @ show_nat (length (data file))),
            (''Accept-Ranges'', ''bytes''),
            (''Content-Length'', ''NaN''),
            (''Content-Type'', ''video/mp4'')],
         body = ByteStream (take (Suc n) (data file))\<rparr>
     \<and> ''NaN'' \<noteq> show_nat n
     \<and> (n < length (data file) \<longrightarrow>
          take (Suc n) (data file) \<noteq> drop (length (data file) - n) (data file))
     \<and> (length (data file) \<le> n \<longrightarrow> take (Suc n) (data file) = data file)"
proof (intro conjI impI)
  show "range_start (''bytes=-'' @ show_nat n) = NaN" by (rule range_start_suffix)
  show "stream_video fs filename (Some (''bytes=-'' @ show_nat n)) =
        \<lparr>status = 206,
         headers =
           [(''Content-Range'',
               ''bytes NaN-'' @ show_nat n @ ''/'' @ show_nat (length (data file))),
            (''Accept-Ranges'', ''bytes''),
            (''Content-Length'', ''NaN''),
            (''Content-Type'', ''video/mp4'')],
         body = ByteStream (take (Suc n) (data file))\<rparr>"
    using found valid by (rule stream_video_suffix_range)
  show "''NaN'' \<noteq> show_nat n"
  proof
    assume "''NaN'' = show_nat n"
    then have "CHR ''N'' \<in> set (show_nat n)" by (metis list.set_intros(1))
    then have "is_digit CHR ''N''" using show_nat_digits by blast
    then show False by (simp add: is_digit_def)
  qed
next
  assume "n < length (data file)"
  then have "length (take (Suc n) (data file)) \<noteq> length (drop (length (data file) - n) (data file))"
    by simp
  then show "take (Suc n) (data file) \<noteq> drop (length (data file) - n) (data file)"
    by metis
next
  assume "length (data file) \<le> n"
  then show "take (Suc n) (data file) = data file" by simp
qed

theorem suffix_range_start_is_NaN_witness:
  "map_of sample_dir ''1700000000000-clip.mp4'' = Some clip
   \<and> \<not> invalid_filename ''1700000000000-clip.mp4''
   \<and> (100 :: nat) < 2 ^ 53
   \<and> (100 :: nat) < length (data clip)
   \<and> range_start ''bytes=-100'' = NaN
   \<and> stream_video sample_dir ''1700000000000-clip.mp4'' (Some ''bytes=-100'') =
        \<lparr>status = 206,
         headers =
           [(''Content-Range'', ''bytes NaN-100/1000''), (''Accept-Ranges'', ''bytes''),
            (''Content-Length'', ''NaN''), (''Content-Type'', ''video/mp4'')],
         body = ByteStream (replicate 101 0)\<rparr>
   \<and> take 101 (data clip) \<noteq> drop 900 (data clip)
   \<and> length (data notes_txt) \<le> 3
   \<and> take (Suc 3) (data notes_txt) = data notes_txt"
proof -
  have safe: "(100 :: nat) < 2 ^ 53" by simp
  have short: "100 < length (data clip)" by (simp add: clip_def)
  have safe': "(3 :: nat) < 2 ^ 53" by simp
  have whole: "length (data notes_txt) \<le> 3" by (simp add: notes_txt_def)
  have past: "take (Suc 3) (data notes_txt) = data notes_txt"
    using suffix_range_start_is_NaN [OF sample_dir_notes notes_name_valid safe'] whole
    by blast
  show ?thesis
    using suffix_range_start_is_NaN [OF sample_dir_clip clip_name_valid safe]
      sample_dir_clip clip_name_valid short whole past
    by (simp add: show_nat_small clip_def)
qed

end
